theory Spec2Isabelle
  imports Main "HOL-Library.Multiset"
begin

section \<open>Python strings\<close>

text \<open>
  The scripts work on Python \<^verbatim>\<open>str\<close> values. A string is a \<^typ>\<open>string\<close>, one
  \<^typ>\<open>char\<close> per character; the texts are taken to be ASCII (a schema dump of unquoted
  identifiers), so the character classes below are the ASCII parts of Python's:
  \<^verbatim>\<open>str.isspace\<close> and the pattern class \<^verbatim>\<open>\s\<close> hold for the codes 9-13 and 28-32,
  \<^verbatim>\<open>\w\<close> for letters, digits and the underscore, \<^verbatim>\<open>\d\<close> for digits, and
  \<^verbatim>\<open>upper\<close>/\<^verbatim>\<open>lower\<close> change the 26 letters only.
\<close>

definition is_space :: "char \<Rightarrow> bool" where
  "is_space c = (let n = (of_char c :: nat) in (9 \<le> n \<and> n \<le> 13) \<or> (28 \<le> n \<and> n \<le> 32))"

definition is_digit :: "char \<Rightarrow> bool" where
  "is_digit c = (let n = (of_char c :: nat) in 48 \<le> n \<and> n \<le> 57)"

definition is_word :: "char \<Rightarrow> bool" where
  "is_word c = (let n = (of_char c :: nat) in
     (48 \<le> n \<and> n \<le> 57) \<or> (65 \<le> n \<and> n \<le> 90) \<or> n = 95 \<or> (97 \<le> n \<and> n \<le> 122))"

definition upper_char :: "char \<Rightarrow> char" where
  "upper_char c = (let n = (of_char c :: nat) in if 97 \<le> n \<and> n \<le> 122 then char_of (n - 32) else c)"

definition lower_char :: "char \<Rightarrow> char" where
  "lower_char c = (let n = (of_char c :: nat) in if 65 \<le> n \<and> n \<le> 90 then char_of (n + 32) else c)"

definition upper :: "string \<Rightarrow> string" where
  "upper s = map upper_char s"

definition lower :: "string \<Rightarrow> string" where
  "lower s = map lower_char s"

text \<open>\<^verbatim>\<open>s.strip(chars)\<close>, \<^verbatim>\<open>s.rstrip(chars)\<close> for a class of characters, and \<^verbatim>\<open>s.strip()\<close>.\<close>

definition lstrip_of :: "(char \<Rightarrow> bool) \<Rightarrow> string \<Rightarrow> string" where
  "lstrip_of P s = dropWhile P s"

definition rstrip_of :: "(char \<Rightarrow> bool) \<Rightarrow> string \<Rightarrow> string" where
  "rstrip_of P s = rev (dropWhile P (rev s))"

definition strip_of :: "(char \<Rightarrow> bool) \<Rightarrow> string \<Rightarrow> string" where
  "strip_of P s = lstrip_of P (rstrip_of P s)"

definition strip :: "string \<Rightarrow> string" where
  "strip s = strip_of is_space s"

text \<open>\<^verbatim>\<open>s.startswith(p)\<close>, \<^verbatim>\<open>s.endswith(p)\<close> and the substring test \<^verbatim>\<open>p in s\<close>.\<close>

definition startswith :: "string \<Rightarrow> string \<Rightarrow> bool" where
  "startswith s p = (take (length p) s = p)"

definition endswith :: "string \<Rightarrow> string \<Rightarrow> bool" where
  "endswith s p = startswith (rev s) (rev p)"

fun contains :: "string \<Rightarrow> string \<Rightarrow> bool" where
  "contains p [] = (p = [])"
| "contains p (c # s) = (startswith (c # s) p \<or> contains p s)"

text \<open>
  The same functions by the bits of a character and by recursion over the strings, for
  evaluation.
\<close>

lemma is_space_code [code]:
  "is_space (Char b0 b1 b2 b3 b4 b5 b6 b7) =
     (\<not> b7 \<and> \<not> b6 \<and>
      (if b5 then \<not> b4 \<and> \<not> b3 \<and> \<not> b2 \<and> \<not> b1 \<and> \<not> b0
       else if b4 then b3 \<and> b2
       else b3 \<and> (b0 \<or> b1 \<or> b2) \<and> \<not> (b2 \<and> b1)))"
  by (auto simp: is_space_def)

lemma is_digit_code [code]:
  "is_digit (Char b0 b1 b2 b3 b4 b5 b6 b7) =
     (\<not> b7 \<and> \<not> b6 \<and> b5 \<and> b4 \<and> (\<not> b3 \<or> (\<not> b2 \<and> \<not> b1)))"
  by (auto simp: is_digit_def)

lemma is_word_code [code]:
  "is_word (Char b0 b1 b2 b3 b4 b5 b6 b7) =
     (\<not> b7 \<and>
      (if b6 then
         ((b0 \<or> b1 \<or> b2 \<or> b3 \<or> b4) \<and> \<not> (b4 \<and> b3 \<and> (b2 \<or> (b1 \<and> b0))))
         \<or> (\<not> b5 \<and> b4 \<and> b3 \<and> b2 \<and> b1 \<and> b0)
       else b5 \<and> b4 \<and> (\<not> b3 \<or> (\<not> b2 \<and> \<not> b1))))"
  by (auto simp: is_word_def)

lemma upper_char_code [code]:
  "upper_char (Char b0 b1 b2 b3 b4 b5 b6 b7) =
     (if \<not> b7 \<and> b6 \<and> b5 \<and> (b0 \<or> b1 \<or> b2 \<or> b3 \<or> b4)
           \<and> \<not> (b4 \<and> b3 \<and> (b2 \<or> (b1 \<and> b0)))
      then Char b0 b1 b2 b3 b4 False b6 b7
      else Char b0 b1 b2 b3 b4 b5 b6 b7)"
  by (cases b0; cases b1; cases b2; cases b3; cases b4; cases b5; cases b6; cases b7;
      simp add: upper_char_def char_of_def bit_Suc_0_iff)

lemma lower_char_code [code]:
  "lower_char (Char b0 b1 b2 b3 b4 b5 b6 b7) =
     (if \<not> b7 \<and> b6 \<and> \<not> b5 \<and> (b0 \<or> b1 \<or> b2 \<or> b3 \<or> b4)
           \<and> \<not> (b4 \<and> b3 \<and> (b2 \<or> (b1 \<and> b0)))
      then Char b0 b1 b2 b3 b4 True b6 b7
      else Char b0 b1 b2 b3 b4 b5 b6 b7)"
  by (cases b0; cases b1; cases b2; cases b3; cases b4; cases b5; cases b6; cases b7;
      simp add: lower_char_def char_of_def bit_Suc_0_iff)

lemma startswith_code [code]:
  "startswith s [] = True"
  "startswith [] (p # ps) = False"
  "startswith (c # s) (p # ps) = (if c = p then startswith s ps else False)"
  by (auto simp: startswith_def)

lemma contains_code [code]:
  "contains p [] = (p = [])"
  "contains p (c # s) = (if startswith (c # s) p then True else contains p s)"
  by auto

text \<open>
  \<^verbatim>\<open>s.split(sep)\<close> for a one-character separator (the result is never empty),
  \<^verbatim>\<open>s.split(sep, 1)\<close>, \<^verbatim>\<open>s.split()\<close> on runs of whitespace, and \<^verbatim>\<open>sep.join(xs)\<close>.
\<close>

fun split_acc :: "char \<Rightarrow> string \<Rightarrow> string \<Rightarrow> string list" where
  "split_acc sep cur [] = [cur]"
| "split_acc sep cur (c # s) =
     (if c = sep then cur # split_acc sep [] s else split_acc sep (cur @ [c]) s)"

definition split_on :: "char \<Rightarrow> string \<Rightarrow> string list" where
  "split_on sep s = split_acc sep [] s"


fun words_acc :: "string \<Rightarrow> string \<Rightarrow> string list" where
  "words_acc cur [] = (if cur = [] then [] else [cur])"
| "words_acc cur (c # s) =
     (if is_space c then (if cur = [] then words_acc [] s else cur # words_acc [] s)
      else words_acc (cur @ [c]) s)"

definition split_ws :: "string \<Rightarrow> string list" where
  "split_ws s = words_acc [] s"

fun join :: "string \<Rightarrow> string list \<Rightarrow> string" where
  "join sep [] = []"
| "join sep [x] = x"
| "join sep (x # y # xs) = x @ sep @ join sep (y # xs)"

text \<open>
  A Python \<^verbatim>\<open>dict\<close> keeps its keys in insertion order: an association list with one
  entry per key. \<^verbatim>\<open>d[k] = v\<close> replaces the value of an existing key where it stands
  and appends a new key at the end.
\<close>

fun dict_set :: "('k \<times> 'v) list \<Rightarrow> 'k \<Rightarrow> 'v \<Rightarrow> ('k \<times> 'v) list" where
  "dict_set [] k v = [(k, v)]"
| "dict_set ((k', v') # d) k v =
     (if k' = k then (k', v) # d else (k', v') # dict_set d k v)"

definition dict_get :: "('k \<times> 'v) list \<Rightarrow> 'k \<Rightarrow> 'v option" where
  "dict_get d k = map_of d k"

definition dict_keys :: "('k \<times> 'v) list \<Rightarrow> 'k list" where
  "dict_keys d = map fst d"

section \<open>Regular expressions\<close>

text \<open>
  The patterns given to \<^verbatim>\<open>re.search\<close> and \<^verbatim>\<open>re.sub\<close> are built from literals,
  \<^verbatim>\<open>c+\<close> for a character class \<open>c\<close>, optional parts \<^verbatim>\<open>(...)?\<close>, concatenation,
  capturing groups and one alternation. \<open>rx_match r s g\<close> lists every way in which \<open>r\<close>
  matches a prefix of \<open>s\<close>, as the rest of \<open>s\<close> and the groups captured (latest first),
  in the order in which Python's backtracking matcher tries them: a greedy \<^verbatim>\<open>+\<close> tries
  the longest run first, \<^verbatim>\<open>?\<close> tries the part before it tries to skip it, \<^verbatim>\<open>|\<close>
  tries the left side first. The match that \<^verbatim>\<open>re\<close> reports is the first of the list.
\<close>

datatype cls = Word | Space | Digit | Not_in string | Not_space_or string

fun cls_match :: "cls \<Rightarrow> char \<Rightarrow> bool" where
  "cls_match Word c = is_word c"
| "cls_match Space c = is_space c"
| "cls_match Digit c = is_digit c"
| "cls_match (Not_in cs) c = (c \<notin> set cs)"
| "cls_match (Not_space_or cs) c = (\<not> is_space c \<and> c \<notin> set cs)"

datatype rx = Lit string | Plus cls | Opt rx | Seq rx rx | Grp nat rx | Alt rx rx

type_synonym groups = "(nat \<times> string) list"

fun rx_match :: "rx \<Rightarrow> string \<Rightarrow> groups \<Rightarrow> (string \<times> groups) list" where
  "rx_match (Lit l) s g = (if startswith s l then [(drop (length l) s, g)] else [])"
| "rx_match (Plus c) s g =
     map (\<lambda>n. (drop n s, g)) (rev [1 ..< Suc (length (takeWhile (cls_match c) s))])"
| "rx_match (Opt r) s g = rx_match r s g @ [(s, g)]"
| "rx_match (Seq r1 r2) s g = concat (map (\<lambda>(s', g'). rx_match r2 s' g') (rx_match r1 s g))"
| "rx_match (Grp n r) s g =
     map (\<lambda>(s', g'). (s', (n, take (length s - length s') s) # g')) (rx_match r s g)"
| "rx_match (Alt r1 r2) s g = rx_match r1 s g @ rx_match r2 s g"

text \<open>\<^verbatim>\<open>re.search(r, s)\<close>: the first match at the leftmost position that has one.\<close>

fun rx_search :: "rx \<Rightarrow> string \<Rightarrow> groups option" where
  "rx_search r [] = (case rx_match r [] [] of [] \<Rightarrow> None | (rest, g) # _ \<Rightarrow> Some g)"
| "rx_search r (c # s) =
     (case rx_match r (c # s) [] of [] \<Rightarrow> rx_search r s | (rest, g) # _ \<Rightarrow> Some g)"

text \<open>\<^verbatim>\<open>match.group(n)\<close>: \<open>None\<close> for a group that took no part in the match.\<close>

definition group :: "groups \<Rightarrow> nat \<Rightarrow> string option" where
  "group g n = map_of g n"

text \<open>
  \<^verbatim>\<open>re.sub(r, repl, s)\<close> for a replacement without group references: the matches are
  replaced from left to right. (After an empty match the next character is copied; the
  patterns below match at least one character.)
\<close>

function rx_sub :: "rx \<Rightarrow> string \<Rightarrow> string \<Rightarrow> string" where
  "rx_sub r repl [] = []"
| "rx_sub r repl (c # s) =
     (case rx_match r (c # s) [] of
        [] \<Rightarrow> c # rx_sub r repl s
      | (rest, g) # _ \<Rightarrow>
          if length rest < length (c # s) then repl @ rx_sub r repl rest
          else repl @ c # rx_sub r repl s)"
  by pat_completeness auto
termination
  by (relation "measure (\<lambda>(r, repl, s). length s)") auto

fun rx_seqs :: "rx list \<Rightarrow> rx" where
  "rx_seqs [] = Lit []"
| "rx_seqs [r] = r"
| "rx_seqs (r # r' # rs) = Seq r (rx_seqs (r' # rs))"

text \<open>The part \<^verbatim>\<open>(\w+\.)?\<close> that many of the patterns share, as group \<open>n\<close>.\<close>

definition schema_prefix :: "nat \<Rightarrow> rx" where
  "schema_prefix n = Opt (Grp n (Seq (Plus Word) (Lit ''.'')))"

section \<open>DDL parser and compressor\<close>

text \<open>
  \<^verbatim>\<open>scripts/02_compress_schema.py\<close>, class \<^verbatim>\<open>SchemaCompressor\<close>. A column is the
  dictionary \<^verbatim>\<open>{'type', 'not_null', 'default'}\<close> with the key \<^verbatim>\<open>'auto_pk'\<close> added by the
  post-pass (\<^verbatim>\<open>col_info.get('auto_pk')\<close> is false while the key is missing); a
  constraint is a dictionary tagged by its \<^verbatim>\<open>'type'\<close>; \<^verbatim>\<open>self.tables\<close> and the
  \<^verbatim>\<open>'columns'\<close> of a table are ordered dictionaries. What the parser prints (it does
  so under \<^verbatim>\<open>if self.debug:\<close> only) is kept in the state, as the list \<open>printed\<close> of
  the messages with their parts.
\<close>

datatype diagnostic =
    No_table_match string
  | Table_not_found string "string list"
  | Added_fk string "string list" string "string list"
  | Fk_regex_failed string
  | Index_regex_failed string
  | Processing_index string string
  | Available_tables "string list"
  | Index_table_not_found string
  | Added_index string "string list" bool
  | Column_extraction_failed string

record column =
  col_type :: string
  not_null :: bool
  col_default :: "string option"
  auto_pk :: bool

datatype constraint =
    PRIMARY_KEY "string list"
  | FOREIGN_KEY "string list" string "string list" bool
  | UNIQUE "string list"

record index_info =
  idx_name :: string
  idx_columns :: "string list"
  idx_unique :: bool
  idx_like_ops :: bool

record table_info =
  columns :: "(string \<times> column) list"
  constraints :: "constraint list"
  indexes :: "index_info list"

record compressor =
  tables :: "(string \<times> table_info) list"
  sequences :: "(string \<times> (string \<times> string) option) list"
  default_owner :: "string option"
  default_schema :: string
  current_table :: "string option"
  debug :: bool
  printed :: "diagnostic list"

text \<open>\<^verbatim>\<open>SchemaCompressor(debug)\<close>; \<^verbatim>\<open>main\<close> calls it with \<^verbatim>\<open>debug=False\<close>.\<close>

definition init_compressor :: "bool \<Rightarrow> compressor" where
  "init_compressor dbg = \<lparr>tables = [], sequences = [], default_owner = None,
     default_schema = ''public'', current_table = None, debug = dbg, printed = []\<rparr>"

text \<open>\<^verbatim>\<open>if self.debug: print(...)\<close>\<close>

definition print_debug :: "diagnostic \<Rightarrow> compressor \<Rightarrow> compressor" where
  "print_debug d s = (if debug s then s\<lparr>printed := printed s @ [d]\<rparr> else s)"

text \<open>
  \<^verbatim>\<open>d[k][...] = ...\<close> and \<^verbatim>\<open>d[k][...].append(...)\<close> change the value stored under
  \<open>k\<close>. Every use below comes after a test that \<open>k\<close> is a key of \<open>d\<close>.
\<close>

definition dict_modify :: "('k \<times> 'v) list \<Rightarrow> 'k \<Rightarrow> ('v \<Rightarrow> 'v) \<Rightarrow> ('k \<times> 'v) list" where
  "dict_modify d k f = map (\<lambda>(k', v). if k' = k then (k', f v) else (k', v)) d"

definition modify_table :: "string \<Rightarrow> (table_info \<Rightarrow> table_info) \<Rightarrow> compressor \<Rightarrow> compressor" where
  "modify_table table_name f s = s\<lparr>tables := dict_modify (tables s) table_name f\<rparr>"

subsection \<open>Column definitions\<close>

text \<open>
  \<^verbatim>\<open>
  def _simplify_type(self, col_type):
      col_type = re.sub(r'character varying\(\d+\)', 'varchar', col_type)
      col_type = re.sub(r'character\(\d+\)', 'char', col_type)
      col_type = re.sub(r'timestamp with time zone', 'timestamptz', col_type)
      col_type = re.sub(r'timestamp without time zone', 'timestamp', col_type)
      return col_type
  \<close>
\<close>

definition simplify_type :: "string \<Rightarrow> string" where
  "simplify_type col_type0 =
     (let col_type1 = rx_sub (rx_seqs [Lit ''character varying('', Plus Digit, Lit '')''])
                        ''varchar'' col_type0;
          col_type2 = rx_sub (rx_seqs [Lit ''character('', Plus Digit, Lit '')'']) ''char'' col_type1;
          col_type3 = rx_sub (Lit ''timestamp with time zone'') ''timestamptz'' col_type2;
          col_type4 = rx_sub (Lit ''timestamp without time zone'') ''timestamp'' col_type3
      in col_type4)"

text \<open>
  \<^verbatim>\<open>
  def _parse_column_definition(self, line, table_name):
      line = line.rstrip(',')
      if any(keyword in line.upper() for keyword in
             ['CONSTRAINT', 'PRIMARY KEY', 'FOREIGN KEY', 'UNIQUE', 'CHECK']):
          return
      parts = line.split()
      if len(parts) >= 2:
          col_name = parts[0]
          col_type = parts[1]
          col_type = self._simplify_type(col_type)
          not_null = 'NOT NULL' in line.upper()
          default_value = None
          if 'DEFAULT' in line.upper():
              default_match = re.search(r'DEFAULT\s+([^,\s]+)', line.upper())
              if default_match:
                  default_value = default_match.group(1)
          self.tables[table_name]['columns'][col_name] = {
              'type': col_type, 'not_null': not_null, 'default': default_value}
  \<close>
\<close>

definition rx_default :: rx where
  "rx_default = rx_seqs [Lit ''DEFAULT'', Plus Space, Grp 1 (Plus (Not_space_or '',''))]"

definition default_of :: "string \<Rightarrow> string option" where
  "default_of line =
     (if contains ''DEFAULT'' (upper line) then
        (case rx_search rx_default (upper line) of
           None \<Rightarrow> None
         | Some default_match \<Rightarrow> group default_match 1)
      else None)"

definition parse_column_definition :: "string \<Rightarrow> string \<Rightarrow> compressor \<Rightarrow> compressor" where
  "parse_column_definition line0 table_name s =
     (let line = rstrip_of (\<lambda>c. c = CHR '','') line0 in
      if list_ex (\<lambda>keyword. contains keyword (upper line))
           [''CONSTRAINT'', ''PRIMARY KEY'', ''FOREIGN KEY'', ''UNIQUE'', ''CHECK'']
      then s
      else
        (case split_ws line of
           col_name # raw_type # _ \<Rightarrow>
             modify_table table_name
               (\<lambda>t. t\<lparr>columns := dict_set (columns t) col_name
                  \<lparr>col_type = simplify_type raw_type,
                   not_null = contains ''NOT NULL'' (upper line),
                   col_default = default_of line,
                   auto_pk = False\<rparr>\<rparr>) s
         | _ \<Rightarrow> s))"

subsection \<open>CREATE TABLE\<close>

text \<open>
  \<^verbatim>\<open>
  def _parse_create_table(self, lines, start_idx):
      line = lines[start_idx].strip()
      match = re.search(r'CREATE TABLE (\w+\.)?(\w+)', line)
      if not match:
          return start_idx
      table_name = match.group(2)
      self.current_table = table_name
      if table_name not in self.tables:
          self.tables[table_name] = {'columns': OrderedDict(), 'constraints': [], 'indexes': []}
      i = start_idx + 1
      while i < len(lines):
          line = lines[i].strip()
          if line == ');' or line.startswith(');'):
              break
          if line and not line.startswith('--'):
              self._parse_column_definition(line, table_name)
          i += 1
      return i
  \<close>
  \<open>column_lines\<close> is the inner loop over the lines from \<open>start_idx + 1\<close> on; it returns the
  number of lines passed before the \<^verbatim>\<open>break\<close> (or the end of the file).
\<close>

definition rx_create_table :: rx where
  "rx_create_table = rx_seqs [Lit ''CREATE TABLE '', schema_prefix 1, Grp 2 (Plus Word)]"

definition empty_table :: table_info where
  "empty_table = \<lparr>columns = [], constraints = [], indexes = []\<rparr>"

fun column_lines :: "string list \<Rightarrow> string \<Rightarrow> compressor \<Rightarrow> nat \<times> compressor" where
  "column_lines [] table_name s = (0, s)"
| "column_lines (l # ls) table_name s =
     (let line = strip l in
      if line = '');'' \<or> startswith line '');'' then (0, s)
      else
        (let s' = (if line \<noteq> [] \<and> \<not> startswith line ''--''
                   then parse_column_definition line table_name s else s);
             (n, s'') = column_lines ls table_name s'
         in (Suc n, s'')))"

definition parse_create_table :: "string list \<Rightarrow> nat \<Rightarrow> compressor \<Rightarrow> nat \<times> compressor" where
  "parse_create_table lines start_idx s =
     (let line = strip (lines ! start_idx) in
      case rx_search rx_create_table line of
        None \<Rightarrow> (start_idx, s)
      | Some match \<Rightarrow>
          (case group match 2 of
             None \<Rightarrow> (start_idx, s)
           | Some table_name \<Rightarrow>
               (let s1 = s\<lparr>current_table := Some table_name\<rparr>;
                    s2 = (if table_name \<in> set (dict_keys (tables s1)) then s1
                          else s1\<lparr>tables := dict_set (tables s1) table_name empty_table\<rparr>);
                    (n, s3) = column_lines (drop (start_idx + 1) lines) table_name s2
                in (start_idx + 1 + n, s3))))"

subsection \<open>Sequences\<close>

text \<open>
  \<^verbatim>\<open>
  def _parse_create_sequence(self, lines, start_idx):
      line = lines[start_idx].strip()
      match = re.search(r'CREATE SEQUENCE (\w+\.)?(\w+)', line)
      if match:
          seq_name = match.group(2)
          self.sequences[seq_name] = {'owned_by': None}
      return start_idx

  def _parse_sequence_owned_by(self, line):
      match = re.search(r'ALTER SEQUENCE (\w+\.)?(\w+) OWNED BY (\w+\.)?(\w+)\.(\w+)', line)
      if match:
          seq_name = match.group(2)
          table_name = match.group(4)
          col_name = match.group(5)
          if seq_name in self.sequences:
              self.sequences[seq_name]['owned_by'] = (table_name, col_name)
  \<close>
\<close>

definition rx_create_sequence :: rx where
  "rx_create_sequence = rx_seqs [Lit ''CREATE SEQUENCE '', schema_prefix 1, Grp 2 (Plus Word)]"

definition rx_alter_sequence :: rx where
  "rx_alter_sequence =
     rx_seqs [Lit ''ALTER SEQUENCE '', schema_prefix 1, Grp 2 (Plus Word), Lit '' OWNED BY '',
           schema_prefix 3, Grp 4 (Plus Word), Lit ''.'', Grp 5 (Plus Word)]"

definition parse_create_sequence :: "string list \<Rightarrow> nat \<Rightarrow> compressor \<Rightarrow> nat \<times> compressor" where
  "parse_create_sequence lines start_idx s =
     (let line = strip (lines ! start_idx) in
      case rx_search rx_create_sequence line of
        None \<Rightarrow> (start_idx, s)
      | Some match \<Rightarrow>
          (case group match 2 of
             None \<Rightarrow> (start_idx, s)
           | Some seq_name \<Rightarrow>
               (start_idx, s\<lparr>sequences := dict_set (sequences s) seq_name None\<rparr>)))"

definition parse_sequence_owned_by :: "string \<Rightarrow> compressor \<Rightarrow> compressor" where
  "parse_sequence_owned_by line s =
     (case rx_search rx_alter_sequence line of
        None \<Rightarrow> s
      | Some match \<Rightarrow>
          (case (group match 2, group match 4, group match 5) of
             (Some seq_name, Some table_name, Some col_name) \<Rightarrow>
               if seq_name \<in> set (dict_keys (sequences s))
               then s\<lparr>sequences :=
                      dict_modify (sequences s) seq_name (\<lambda>_. Some (table_name, col_name))\<rparr>
               else s
           | _ \<Rightarrow> s))"

subsection \<open>ALTER TABLE ... ADD CONSTRAINT\<close>

text \<open>
  \<^verbatim>\<open>
  def _parse_alter_table_constraint(self, line):
      table_match = re.search(r'ALTER TABLE (?:ONLY )?(\w+\.)?(\w+)', line)
      if not table_match:
          if self.debug:
              print(f"No table match for: {line[:100]}...")
          return
      table_name = table_match.group(2)
      if table_name not in self.tables:
          if self.debug:
              print(f"Table {table_name} not found in tables. "
                    f"Available: {list(self.tables.keys())[:5]}...")
          return
      if 'PRIMARY KEY' in line.upper():
          pk_match = re.search(r'PRIMARY KEY \(([^)]+)\)', line)
          if pk_match:
              columns = [col.strip() for col in pk_match.group(1).split(',')]
              self.tables[table_name]['constraints'].append(
                  {'type': 'PRIMARY KEY', 'columns': columns})
      elif 'FOREIGN KEY' in line.upper():
          fk_match = re.search(
              r'FOREIGN KEY \(([^)]+)\) REFERENCES (\w+\.)?(\w+)\(([^)]+)\)', line)
          if fk_match:
              local_cols = [col.strip() for col in fk_match.group(1).split(',')]
              ref_table = fk_match.group(3)
              ref_cols = [col.strip() for col in fk_match.group(4).split(',')]
              deferrable = 'DEFERRABLE' in line.upper()
              self.tables[table_name]['constraints'].append(
                  {'type': 'FOREIGN KEY', 'columns': local_cols, 'ref_table': ref_table,
                   'ref_columns': ref_cols, 'deferrable': deferrable})
              if self.debug:
                  print(f"Added FK to {table_name}: {local_cols} -> {ref_table}({ref_cols})")
          else:
              if self.debug:
                  print(f"FK regex failed for: {line[:100]}...")
      elif 'UNIQUE' in line.upper():
          unique_match = re.search(r'UNIQUE \(([^)]+)\)', line)
          if unique_match:
              columns = [col.strip() for col in unique_match.group(1).split(',')]
              self.tables[table_name]['constraints'].append(
                  {'type': 'UNIQUE', 'columns': columns})
  \<close>
\<close>

definition rx_alter_table :: rx where
  "rx_alter_table =
     rx_seqs [Lit ''ALTER TABLE '', Opt (Lit ''ONLY ''), schema_prefix 1, Grp 2 (Plus Word)]"

definition rx_primary_key :: rx where
  "rx_primary_key = rx_seqs [Lit ''PRIMARY KEY ('', Grp 1 (Plus (Not_in '')'')), Lit '')'']"

definition rx_foreign_key :: rx where
  "rx_foreign_key =
     rx_seqs [Lit ''FOREIGN KEY ('', Grp 1 (Plus (Not_in '')'')), Lit '') REFERENCES '',
           schema_prefix 2, Grp 3 (Plus Word), Lit ''('', Grp 4 (Plus (Not_in '')'')), Lit '')'']"

definition rx_unique :: rx where
  "rx_unique = rx_seqs [Lit ''UNIQUE ('', Grp 1 (Plus (Not_in '')'')), Lit '')'']"

text \<open>\<^verbatim>\<open>[col.strip() for col in text.split(',')]\<close>\<close>

definition column_list :: "string \<Rightarrow> string list" where
  "column_list text = map strip (split_on CHR '','' text)"

definition add_constraint :: "string \<Rightarrow> constraint \<Rightarrow> compressor \<Rightarrow> compressor" where
  "add_constraint table_name c s =
     modify_table table_name (\<lambda>t. t\<lparr>constraints := constraints t @ [c]\<rparr>) s"

definition parse_alter_table_constraint :: "string \<Rightarrow> compressor \<Rightarrow> compressor" where
  "parse_alter_table_constraint line s =
     (case rx_search rx_alter_table line of
        None \<Rightarrow> print_debug (No_table_match (take 100 line)) s
      | Some table_match \<Rightarrow>
          (case group table_match 2 of
             None \<Rightarrow> s
           | Some table_name \<Rightarrow>
               if table_name \<notin> set (dict_keys (tables s)) then
                 print_debug (Table_not_found table_name (take 5 (dict_keys (tables s)))) s
               else if contains ''PRIMARY KEY'' (upper line) then
                 (case rx_search rx_primary_key line of
                    None \<Rightarrow> s
                  | Some pk_match \<Rightarrow>
                      (case group pk_match 1 of
                         None \<Rightarrow> s
                       | Some cols \<Rightarrow>
                           add_constraint table_name (PRIMARY_KEY (column_list cols)) s))
               else if contains ''FOREIGN KEY'' (upper line) then
                 (case rx_search rx_foreign_key line of
                    None \<Rightarrow> print_debug (Fk_regex_failed (take 100 line)) s
                  | Some fk_match \<Rightarrow>
                      (case (group fk_match 1, group fk_match 3, group fk_match 4) of
                         (Some local_cols, Some ref_table, Some ref_cols) \<Rightarrow>
                           print_debug
                             (Added_fk table_name (column_list local_cols) ref_table
                                (column_list ref_cols))
                             (add_constraint table_name
                                (FOREIGN_KEY (column_list local_cols) ref_table
                                   (column_list ref_cols) (contains ''DEFERRABLE'' (upper line))) s)
                       | _ \<Rightarrow> s))
               else if contains ''UNIQUE'' (upper line) then
                 (case rx_search rx_unique line of
                    None \<Rightarrow> s
                  | Some unique_match \<Rightarrow>
                      (case group unique_match 1 of
                         None \<Rightarrow> s
                       | Some cols \<Rightarrow> add_constraint table_name (UNIQUE (column_list cols)) s))
               else s))"

subsection \<open>CREATE INDEX\<close>

text \<open>
  \<^verbatim>\<open>
  def _parse_create_index(self, line):
      index_match = re.search(r'CREATE (?:UNIQUE )?INDEX (\w+) ON (\w+\.)?(\w+)', line)
      if not index_match:
          if self.debug:
              print(f"Index regex failed for: {line[:80]}...")
          return
      index_name = index_match.group(1)
      table_name = index_match.group(3)
      unique = 'UNIQUE' in line.upper()
      if self.debug:
          print(f"Processing index {index_name} on table {table_name}")
          print(f"Available tables: {list(self.tables.keys())[:5]}...")
      if table_name not in self.tables:
          if self.debug:
              print(f"Table {table_name} not found in tables!")
          return
      cols_match = re.search(r'USING \w+ \(([^)]+)\)', line)
      if cols_match:
          columns = [col.strip() for col in cols_match.group(1).split(',')]
          like_ops = any('_pattern_ops' in col for col in columns)
          if like_ops:
              columns = [re.sub(r'\s+varchar_pattern_ops|\s+text_pattern_ops', '', col)
                         for col in columns]
          if self.debug:
              print(f"Added index {index_name} with columns {columns} (like_ops: {like_ops})")
          self.tables[table_name]['indexes'].append(
              {'name': index_name, 'columns': columns, 'unique': unique, 'like_ops': like_ops})
      else:
          if self.debug:
              print(f"Column extraction failed for index: {line[:80]}...")
  \<close>
\<close>

definition rx_create_index :: rx where
  "rx_create_index =
     rx_seqs [Lit ''CREATE '', Opt (Lit ''UNIQUE ''), Lit ''INDEX '', Grp 1 (Plus Word), Lit '' ON '',
           schema_prefix 2, Grp 3 (Plus Word)]"

definition rx_using :: rx where
  "rx_using = rx_seqs [Lit ''USING '', Plus Word, Lit '' ('', Grp 1 (Plus (Not_in '')'')), Lit '')'']"

definition rx_pattern_ops :: rx where
  "rx_pattern_ops =
     Alt (Seq (Plus Space) (Lit ''varchar_pattern_ops'')) (Seq (Plus Space) (Lit ''text_pattern_ops''))"

definition parse_create_index :: "string \<Rightarrow> compressor \<Rightarrow> compressor" where
  "parse_create_index line s =
     (case rx_search rx_create_index line of
        None \<Rightarrow> print_debug (Index_regex_failed (take 80 line)) s
      | Some index_match \<Rightarrow>
          (case (group index_match 1, group index_match 3) of
             (Some index_name, Some table_name) \<Rightarrow>
               (let unique = contains ''UNIQUE'' (upper line);
                    s1 = print_debug (Available_tables (take 5 (dict_keys (tables s))))
                           (print_debug (Processing_index index_name table_name) s)
                in if table_name \<notin> set (dict_keys (tables s1)) then
                     print_debug (Index_table_not_found table_name) s1
                   else
                     (case rx_search rx_using line of
                        None \<Rightarrow> print_debug (Column_extraction_failed (take 80 line)) s1
                      | Some cols_match \<Rightarrow>
                          (case group cols_match 1 of
                             None \<Rightarrow> s1
                           | Some cols \<Rightarrow>
                               (let cols0 = column_list cols;
                                    like_ops = list_ex (\<lambda>col. contains ''_pattern_ops'' col) cols0;
                                    cols1 = (if like_ops then map (rx_sub rx_pattern_ops []) cols0
                                             else cols0)
                                in modify_table table_name
                                     (\<lambda>t. t\<lparr>indexes := indexes t @
                                        [\<lparr>idx_name = index_name, idx_columns = cols1,
                                          idx_unique = unique, idx_like_ops = like_ops\<rparr>]\<rparr>)
                                     (print_debug (Added_index index_name cols1 like_ops) s1)))))
           | _ \<Rightarrow> s))"

subsection \<open>The post-pass for auto-incrementing primary keys\<close>

text \<open>
  \<^verbatim>\<open>
  def _identify_auto_pk_columns(self):
      for table_name, table_info in self.tables.items():
          pk_constraints = [c for c in table_info['constraints'] if c['type'] == 'PRIMARY KEY']
          for pk_constraint in pk_constraints:
              if len(pk_constraint['columns']) == 1:
                  pk_col = pk_constraint['columns'][0]
                  for seq_name, seq_info in self.sequences.items():
                      if (seq_info['owned_by'] and
                          seq_info['owned_by'][0] == table_name and
                          seq_info['owned_by'][1] == pk_col):
                          if pk_col in table_info['columns']:
                              table_info['columns'][pk_col]['auto_pk'] = True
                          table_info['constraints'].remove(pk_constraint)
                          break
  \<close>
  The loop over the sequences does its work for the first sequence owned by the column and
  stops: it is the test \<open>owned_by_sequence\<close>. \<^verbatim>\<open>list.remove\<close> removes the first element
  equal to its argument, as \<^const>\<open>remove1\<close> does; the argument is an element of the list
  here, since every removal is caused by one of the equal constraints of the snapshot
  \<^verbatim>\<open>pk_constraints\<close>.
\<close>

definition owned_by_sequence ::
    "(string \<times> (string \<times> string) option) list \<Rightarrow> string \<Rightarrow> string \<Rightarrow> bool" where
  "owned_by_sequence seqs table_name pk_col =
     list_ex (\<lambda>(seq_name, owned_by). owned_by = Some (table_name, pk_col)) seqs"

definition is_primary_key :: "constraint \<Rightarrow> bool" where
  "is_primary_key c = (case c of PRIMARY_KEY cols \<Rightarrow> True | _ \<Rightarrow> False)"

definition mark_auto_pk :: "string \<Rightarrow> table_info \<Rightarrow> table_info" where
  "mark_auto_pk pk_col t =
     (if pk_col \<in> set (dict_keys (columns t))
      then t\<lparr>columns := dict_modify (columns t) pk_col (\<lambda>c. c\<lparr>auto_pk := True\<rparr>)\<rparr>
      else t)"

fun auto_pk_constraints ::
    "(string \<times> (string \<times> string) option) list \<Rightarrow> string \<Rightarrow> constraint list
      \<Rightarrow> table_info \<Rightarrow> table_info" where
  "auto_pk_constraints seqs table_name [] t = t"
| "auto_pk_constraints seqs table_name (pk_constraint # pk_constraints) t =
     (case pk_constraint of
        PRIMARY_KEY [pk_col] \<Rightarrow>
          if owned_by_sequence seqs table_name pk_col then
            auto_pk_constraints seqs table_name pk_constraints
              ((mark_auto_pk pk_col t)\<lparr>constraints := remove1 pk_constraint (constraints t)\<rparr>)
          else auto_pk_constraints seqs table_name pk_constraints t
      | _ \<Rightarrow> auto_pk_constraints seqs table_name pk_constraints t)"

definition identify_auto_pk_columns :: "compressor \<Rightarrow> compressor" where
  "identify_auto_pk_columns s =
     s\<lparr>tables := map (\<lambda>(table_name, t).
          (table_name,
           auto_pk_constraints (sequences s) table_name (filter is_primary_key (constraints t)) t))
        (tables s)\<rparr>"

subsection \<open>The statement loop\<close>

text \<open>
  \<^verbatim>\<open>
  def parse_schema(self, lines):
      i = 0
      while i < len(lines):
          line = lines[i].strip()
          if line.startswith('ALTER TABLE') and 'OWNER TO' in line:
              match = re.search(r'OWNER TO (\w+)', line)
              if match and not self.default_owner:
                  self.default_owner = match.group(1)
          if line.startswith('CREATE TABLE'):
              i = self._parse_create_table(lines, i)
          elif line.startswith('CREATE SEQUENCE'):
              i = self._parse_create_sequence(lines, i)
          elif 'SEQUENCE' in line and 'OWNED BY' in line:
              self._parse_sequence_owned_by(line)
          elif line.startswith('ALTER TABLE') and 'ADD CONSTRAINT' in line:
              self._parse_alter_table_constraint(line)
          elif line.startswith('ALTER TABLE'):
              if i + 1 < len(lines) and 'ADD CONSTRAINT' in lines[i + 1]:
                  combined_line = line + ' ' + lines[i + 1].strip()
                  self._parse_alter_table_constraint(combined_line)
                  i += 1
          elif line.startswith('CREATE') and 'INDEX' in line:
              self._parse_create_index(line)
          i += 1
      self._identify_auto_pk_columns()
  \<close>
  \<open>parse_statement lines i s\<close> is one round of the loop at a position \<open>i < len(lines)\<close>: the
  value of \<open>i\<close> before the final \<^verbatim>\<open>i += 1\<close>, and the state.
\<close>

definition rx_owner_to :: rx where
  "rx_owner_to = rx_seqs [Lit ''OWNER TO '', Grp 1 (Plus Word)]"

definition parse_owner :: "string \<Rightarrow> compressor \<Rightarrow> compressor" where
  "parse_owner line s =
     (if startswith line ''ALTER TABLE'' \<and> contains ''OWNER TO'' line then
        (case rx_search rx_owner_to line of
           None \<Rightarrow> s
         | Some match \<Rightarrow>
             if default_owner s = None \<or> default_owner s = Some [] then
               s\<lparr>default_owner := group match 1\<rparr>
             else s)
      else s)"

definition parse_statement :: "string list \<Rightarrow> nat \<Rightarrow> compressor \<Rightarrow> nat \<times> compressor" where
  "parse_statement lines i s0 =
     (let line = strip (lines ! i);
          s = parse_owner line s0
      in if startswith line ''CREATE TABLE'' then parse_create_table lines i s
         else if startswith line ''CREATE SEQUENCE'' then parse_create_sequence lines i s
         else if contains ''SEQUENCE'' line \<and> contains ''OWNED BY'' line then
           (i, parse_sequence_owned_by line s)
         else if startswith line ''ALTER TABLE'' \<and> contains ''ADD CONSTRAINT'' line then
           (i, parse_alter_table_constraint line s)
         else if startswith line ''ALTER TABLE'' then
           (if i + 1 < length lines \<and> contains ''ADD CONSTRAINT'' (lines ! (i + 1)) then
              (i + 1, parse_alter_table_constraint (line @ '' '' @ strip (lines ! (i + 1))) s)
            else (i, s))
         else if startswith line ''CREATE'' \<and> contains ''INDEX'' line then
           (i, parse_create_index line s)
         else (i, s))"

lemma parse_create_table_fst: "start_idx \<le> fst (parse_create_table lines start_idx s)"
  by (auto simp: parse_create_table_def Let_def split: option.splits prod.splits)

lemma parse_statement_fst: "i \<le> fst (parse_statement lines i s)"
  by (auto simp: parse_statement_def parse_create_sequence_def Let_def parse_create_table_fst
      split: option.splits)

function parse_loop :: "string list \<Rightarrow> nat \<Rightarrow> compressor \<Rightarrow> compressor" where
  "parse_loop lines i s =
     (if i < length lines then
        parse_loop lines (fst (parse_statement lines i s) + 1) (snd (parse_statement lines i s))
      else s)"
  by pat_completeness auto
termination
proof (relation "measure (\<lambda>(lines, i, s). length lines - i)")
  show "wf (measure (\<lambda>(lines, i, s). length lines - i))" by simp
next
  fix lines :: "string list" and i :: nat and s :: compressor
  assume "i < length lines"
  moreover have "i \<le> fst (parse_statement lines i s)" by (rule parse_statement_fst)
  ultimately show "((lines, fst (parse_statement lines i s) + 1, snd (parse_statement lines i s)),
      (lines, i, s)) \<in> measure (\<lambda>(lines, i, s). length lines - i)"
    by simp
qed

definition parse_schema :: "string list \<Rightarrow> compressor \<Rightarrow> compressor" where
  "parse_schema lines s = identify_auto_pk_columns (parse_loop lines 0 s)"

subsection \<open>Serialization to the compact notation\<close>

text \<open>
  \<^verbatim>\<open>generate_compressed_schema\<close>, lines 307-365. The only expression that can raise is
  \<^verbatim>\<open>constraint['ref_columns'][0]\<close>, on an empty list.
\<close>

datatype py_error = IndexError

definition column_line :: "string \<Rightarrow> column \<Rightarrow> string" where
  "column_line col_name col_info =
     (if auto_pk col_info then ''  '' @ col_name @ '': PK''
      else ''  '' @ col_name @ '': '' @ col_type col_info
           @ (if not_null col_info then '' NOT NULL'' else [])
           @ (case col_default col_info of
                None \<Rightarrow> []
              | Some d \<Rightarrow> if d \<noteq> [] then '' DEFAULT '' @ d else []))"

text \<open>
  \<^verbatim>\<open>
  for i, local_col in enumerate(constraint['columns']):
      ref_col = constraint['ref_columns'][i] if i < len(constraint['ref_columns']) \
                else constraint['ref_columns'][0]
      fk_def = f"  FK ({local_col}) > {constraint['ref_table']}({ref_col})"
      if constraint.get('deferrable'):
          fk_def += " DEFERRABLE"
      output.append(fk_def)
  \<close>
\<close>

definition ref_col_at :: "string list \<Rightarrow> nat \<Rightarrow> py_error + string" where
  "ref_col_at ref_columns i =
     (if i < length ref_columns then Inr (ref_columns ! i)
      else (case ref_columns of [] \<Rightarrow> Inl IndexError | r # _ \<Rightarrow> Inr r))"

definition fk_def :: "string \<Rightarrow> string \<Rightarrow> string \<Rightarrow> bool \<Rightarrow> string" where
  "fk_def local_col ref_table ref_col deferrable =
     ''  FK ('' @ local_col @ '') > '' @ ref_table @ ''('' @ ref_col @ '')''
       @ (if deferrable then '' DEFERRABLE'' else [])"

fun fk_lines :: "nat \<Rightarrow> string list \<Rightarrow> string \<Rightarrow> string list \<Rightarrow> bool
    \<Rightarrow> py_error + string list" where
  "fk_lines i [] ref_table ref_columns deferrable = Inr []"
| "fk_lines i (local_col # cols) ref_table ref_columns deferrable =
     (case ref_col_at ref_columns i of
        Inl e \<Rightarrow> Inl e
      | Inr ref_col \<Rightarrow>
          (case fk_lines (Suc i) cols ref_table ref_columns deferrable of
             Inl e \<Rightarrow> Inl e
           | Inr rest \<Rightarrow> Inr (fk_def local_col ref_table ref_col deferrable # rest)))"

fun constraint_lines :: "constraint \<Rightarrow> py_error + string list" where
  "constraint_lines (FOREIGN_KEY cols ref_table ref_columns deferrable) =
     fk_lines 0 cols ref_table ref_columns deferrable"
| "constraint_lines (UNIQUE cols) = Inr [''  UNIQUE ('' @ join '', '' cols @ '')'']"
| "constraint_lines (PRIMARY_KEY cols) = Inr [''  PRIMARY KEY ('' @ join '', '' cols @ '')'']"

definition index_line :: "index_info \<Rightarrow> string" where
  "index_line index =
     ''  IDX ('' @ join '', '' (idx_columns index) @ '')''
       @ (if idx_like_ops index then '' (LIKE)'' else [])
       @ (if idx_unique index then '' UNIQUE'' else [])"

text \<open>The lines of a list of items, up to the first item that raises.\<close>

fun all_lines :: "('a \<Rightarrow> py_error + string list) \<Rightarrow> 'a list \<Rightarrow> py_error + string list" where
  "all_lines f [] = Inr []"
| "all_lines f (x # xs) =
     (case f x of
        Inl e \<Rightarrow> Inl e
      | Inr ls \<Rightarrow> (case all_lines f xs of Inl e \<Rightarrow> Inl e | Inr rest \<Rightarrow> Inr (ls @ rest)))"

definition table_lines :: "string \<times> table_info \<Rightarrow> py_error + string list" where
  "table_lines entry =
     (case entry of (table_name, t) \<Rightarrow>
        (case all_lines constraint_lines (constraints t) of
           Inl e \<Rightarrow> Inl e
         | Inr cls \<Rightarrow>
             Inr ([table_name @ '':'']
                  @ map (\<lambda>(col_name, col_info). column_line col_name col_info) (columns t)
                  @ cls
                  @ map index_line (indexes t)
                  @ [[]])))"

definition header_line :: "compressor \<Rightarrow> string" where
  "header_line s =
     ''-- Schema: '' @ default_schema s
       @ (case default_owner s of
            None \<Rightarrow> []
          | Some owner \<Rightarrow> if owner \<noteq> [] then '', Owner: '' @ owner else [])"

definition output_lines :: "compressor \<Rightarrow> py_error + string list" where
  "output_lines s =
     (case all_lines table_lines (tables s) of
        Inl e \<Rightarrow> Inl e
      | Inr ls \<Rightarrow> Inr (header_line s # [] # ls))"

definition generate_compressed_schema :: "compressor \<Rightarrow> py_error + string" where
  "generate_compressed_schema s =
     (case output_lines s of
        Inl e \<Rightarrow> Inl e
      | Inr ls \<Rightarrow> Inr (join [CHR 0x0A] ls))"

section \<open>Compact-notation parser\<close>

text \<open>
  \<^verbatim>\<open>scripts/03_generate_context.py\<close>, class \<^verbatim>\<open>SchemaContextGenerator\<close>. A table of the
  parsed model is the dictionary made when its header line is read; \<^verbatim>\<open>column_types\<close> is
  a \<^verbatim>\<open>Counter\<close>. A foreign key is stored as a relationship record, both in its table
  and in \<^verbatim>\<open>self.relationships\<close>.
\<close>

record relationship =
  from_table :: string
  from_column :: string
  to_table :: string
  to_column :: string
  rel_deferrable :: bool

type_synonym 'k counter = "('k \<times> nat) list"

text \<open>
  \<^verbatim>\<open>defaultdict(int)\<close> and \<^verbatim>\<open>Counter\<close>: an insertion-ordered dictionary from keys to
  counters, an association list with one entry per key; \<^verbatim>\<open>d[k] += 1\<close> increments the
  entry of \<open>k\<close> in place, or appends \<open>(k, 1)\<close> when \<open>k\<close> is new; reading a missing key gives
  \<open>0\<close>.
\<close>

fun dd_incr :: "'k counter \<Rightarrow> 'k \<Rightarrow> 'k counter" where
  "dd_incr [] k = [(k, 1)]"
| "dd_incr ((k', n) # d) k = (if k' = k then (k', n + 1) # d else (k', n) # dd_incr d k)"

fun dd_get :: "'k counter \<Rightarrow> 'k \<Rightarrow> nat" where
  "dd_get [] k = 0"
| "dd_get ((k', n) # d) k = (if k' = k then n else dd_get d k)"


















section \<open>DDL extractor\<close>

text \<open>
  \<^verbatim>\<open>scripts/step_01_extract_schema.py\<close>. \<^verbatim>\<open>is_insert_statement\<close>:
  \<^verbatim>\<open>
  line_stripped = line.strip().upper()
  if line_stripped.startswith('INSERT INTO'): return True
  if line_stripped.startswith('COPY ') and ' FROM ' in line_stripped: return True
  return False
  \<close>
\<close>

definition is_insert_statement :: "string \<Rightarrow> bool" where
  "is_insert_statement line =
     (let line_stripped = upper (strip line) in
      if startswith line_stripped ''INSERT INTO'' then True
      else if startswith line_stripped ''COPY '' \<and> contains '' FROM '' line_stripped then True
      else False)"

text \<open>
  The loop of \<^verbatim>\<open>extract_schema\<close> over the lines read from the file (each line
  still ends in its newline), with the two flags \<^verbatim>\<open>in_copy_block\<close> and
  \<^verbatim>\<open>in_insert_block\<close>; the result is \<^verbatim>\<open>schema_lines\<close>, the lines that
  were appended, in order.
  \<^verbatim>\<open>
  for i, line in enumerate(lines):
      line_stripped = line.strip().upper()
      if line_stripped.startswith('COPY '):
          in_copy_block = True
          continue
      if in_copy_block:
          if line_stripped == '\\.':
              in_copy_block = False
          continue
      if line_stripped.startswith('INSERT INTO'):
          in_insert_block = True
          continue
      if in_insert_block:
          if line_stripped.endswith(';'):
              in_insert_block = False
          continue
      if is_insert_statement(line):
          continue
      schema_lines.append(line)
  \<close>
\<close>

definition end_of_data :: string where
  "end_of_data = [CHR 0x5C, CHR ''.'']"

fun extract_loop :: "string list \<Rightarrow> bool \<Rightarrow> bool \<Rightarrow> string list" where
  "extract_loop [] in_copy_block in_insert_block = []"
| "extract_loop (line # lines) in_copy_block in_insert_block =
     (let line_stripped = upper (strip line) in
      if startswith line_stripped ''COPY '' then extract_loop lines True in_insert_block
      else if in_copy_block then
        extract_loop lines (if line_stripped = end_of_data then False else True) in_insert_block
      else if startswith line_stripped ''INSERT INTO'' then extract_loop lines in_copy_block True
      else if in_insert_block then
        extract_loop lines in_copy_block (if endswith line_stripped '';'' then False else True)
      else if is_insert_statement line then extract_loop lines in_copy_block in_insert_block
      else line # extract_loop lines in_copy_block in_insert_block)"

definition extract_schema :: "string list \<Rightarrow> string list" where
  "extract_schema lines = extract_loop lines False False"

text \<open>Lines of a file, as \<^verbatim>\<open>readlines\<close> returns them: each ends in a newline.\<close>

definition nl :: "string \<Rightarrow> string" where
  "nl s = s @ [CHR 0x0A]"

text \<open>
  Claim C4 (a single-line INSERT). The file below holds a one-line \<^verbatim>\<open>INSERT INTO\<close>
  statement ending in a semicolon, then a \<^verbatim>\<open>CREATE TABLE\<close> statement over three lines,
  then a \<^verbatim>\<open>CREATE INDEX\<close> statement. The insert line sets \<^verbatim>\<open>in_insert_block\<close>
  although the statement ends on that line, so the three lines of the table are dropped
  with it (the flag is cleared by the \<^verbatim>\<open>);\<close> that closes the table): only the index
  line is kept.
\<close>

theorem extract_single_line_insert:
  "extract_schema
     [nl ''INSERT INTO t VALUES (1);'',
      nl ''CREATE TABLE u ('',
      nl ''    id integer'',
      nl '');'',
      nl ''CREATE INDEX i ON u USING btree (id);'']
   = [nl ''CREATE INDEX i ON u USING btree (id);'']"
  by code_simp

section \<open>Statistics engine: foreign-key degree counts\<close>

text \<open>
  \<^verbatim>\<open>scripts/03_generate_context.py\<close>, \<^verbatim>\<open>generate_statistics\<close>, lines 238-260, over
  \<^verbatim>\<open>self.relationships\<close> of the parsed model.
\<close>

text \<open>
  \<^verbatim>\<open>
  fk_counts = defaultdict(int)
  incoming_fk_counts = defaultdict(int)
  for fk in self.relationships:
      fk_counts[fk['from_table']] += 1
      incoming_fk_counts[fk['to_table']] += 1
  \<close>
\<close>

fun count_fks :: "relationship list \<Rightarrow> string counter \<times> string counter
    \<Rightarrow> string counter \<times> string counter" where
  "count_fks [] acc = acc"
| "count_fks (fk # fks) (outc, inc) =
     count_fks fks (dd_incr outc (from_table fk), dd_incr inc (to_table fk))"

definition fk_counts :: "relationship list \<Rightarrow> string counter" where
  "fk_counts rels = fst (count_fks rels ([], []))"

definition incoming_fk_counts :: "relationship list \<Rightarrow> string counter" where
  "incoming_fk_counts rels = snd (count_fks rels ([], []))"

text \<open>
  \<^verbatim>\<open>tables_without_fks = [name for name in self.tables.keys() if fk_counts[name] == 0]\<close>
  and the same over \<^verbatim>\<open>incoming_fk_counts\<close> for \<^verbatim>\<open>never_referenced\<close>.
\<close>

definition tables_without_fks :: "string list \<Rightarrow> relationship list \<Rightarrow> string list" where
  "tables_without_fks names rels = filter (\<lambda>name. dd_get (fk_counts rels) name = 0) names"

definition never_referenced :: "string list \<Rightarrow> relationship list \<Rightarrow> string list" where
  "never_referenced names rels =
     filter (\<lambda>name. dd_get (incoming_fk_counts rels) name = 0) names"

subsection \<open>Counters\<close>









section \<open>Statistics engine: fallback categorization\<close>

text \<open>
  \<^verbatim>\<open>scripts/03_generate_context.py\<close>, \<^verbatim>\<open>_fallback_categorize_tables\<close>, lines 434-458.
  \<^verbatim>\<open>categories[category].append(table_name)\<close> raises \<^verbatim>\<open>KeyError\<close> on a missing key:
  \<open>dict_append\<close> returns \<open>None\<close> there.
\<close>


fun dict_append :: "('k \<times> 'v list) list \<Rightarrow> 'k \<Rightarrow> 'v \<Rightarrow> ('k \<times> 'v list) list option" where
  "dict_append [] k x = None"
| "dict_append ((k', xs) # d) k x =
     (if k' = k then Some ((k', xs @ [x]) # d)
      else (case dict_append d k x of None \<Rightarrow> None | Some d' \<Rightarrow> Some ((k', xs) # d')))"

text \<open>The default value of \<^verbatim>\<open>settings['context_generation']['fallback_categorization']\<close>.\<close>

definition default_fallback_categorization :: "(string \<times> string list) list" where
  "default_fallback_categorization =
     [(''auth_security'', [''auth'', ''user'', ''permission'', ''role'', ''token'', ''session'']),
      (''audit_logging'', [''log'', ''audit'', ''change'', ''history'', ''event'']),
      (''configuration'',
         [''config'', ''setting'', ''param'', ''lookup'', ''type'', ''status'', ''category'']),
      (''integration'', [''api'', ''webhook'', ''external'', ''import'', ''export'', ''sync'']),
      (''temporary_cache'', [''temp'', ''cache'', ''queue'', ''pending''])]"

text \<open>
  \<^verbatim>\<open>
  categories = {category: [] for category in category_keywords.keys()}
  categories['business_core'] = []
  \<close>
\<close>

definition init_categories :: "(string \<times> string list) list \<Rightarrow> (string \<times> string list) list" where
  "init_categories category_keywords =
     dict_set (foldl (\<lambda>d category. dict_set d category []) [] (dict_keys category_keywords))
       ''business_core'' []"

text \<open>
  The category one table is appended to: the inner loop with its \<^verbatim>\<open>break\<close> and the
  \<^verbatim>\<open>if not categorized\<close> that follows it.
  \<^verbatim>\<open>
  name_lower = table_name.lower()
  categorized = False
  for category, keywords in category_keywords.items():
      if any(keyword in name_lower for keyword in keywords):
          categories[category].append(table_name)
          categorized = True
          break
  if not categorized:
      categories['business_core'].append(table_name)
  \<close>
\<close>

definition category_of :: "(string \<times> string list) list \<Rightarrow> string \<Rightarrow> string" where
  "category_of category_keywords table_name =
     (let name_lower = lower table_name in
      case find (\<lambda>(category, keywords). list_ex (\<lambda>keyword. contains keyword name_lower) keywords)
             category_keywords of
        Some (category, keywords) \<Rightarrow> category
      | None \<Rightarrow> ''business_core'')"

fun categorize_loop :: "(string \<times> string list) list \<Rightarrow> string list
    \<Rightarrow> (string \<times> string list) list \<Rightarrow> (string \<times> string list) list option" where
  "categorize_loop category_keywords [] categories = Some categories"
| "categorize_loop category_keywords (table_name # names) categories =
     (case dict_append categories (category_of category_keywords table_name) table_name of
        None \<Rightarrow> None
      | Some categories' \<Rightarrow> categorize_loop category_keywords names categories')"

definition fallback_categorize_tables :: "(string \<times> string list) list \<Rightarrow> string list
    \<Rightarrow> (string \<times> string list) list option" where
  "fallback_categorize_tables category_keywords names =
     categorize_loop category_keywords names (init_categories category_keywords)"


lemma keys_dict_set: "fst ` set (dict_set d k v) = insert k (fst ` set d)"
  by (induction d k v rule: dict_set.induct) auto

lemma distinct_dict_set: "distinct (map fst d) \<Longrightarrow> distinct (map fst (dict_set d k v))"
  by (induction d k v rule: dict_set.induct) (auto simp: keys_dict_set)

lemma vals_dict_set: "set (map snd (dict_set d k v)) \<subseteq> insert v (set (map snd d))"
  by (induction d k v rule: dict_set.induct) auto

lemma foldl_dict_set_keys:
  "fst ` set (foldl (\<lambda>d c. dict_set d c v) d0 cs) = set cs \<union> fst ` set d0"
  by (induction cs arbitrary: d0) (auto simp: keys_dict_set)

lemma foldl_dict_set_distinct:
  "distinct (map fst d0) \<Longrightarrow> distinct (map fst (foldl (\<lambda>d c. dict_set d c v) d0 cs))"
  by (induction cs arbitrary: d0) (auto simp: distinct_dict_set)

lemma foldl_dict_set_vals:
  "set (map snd (foldl (\<lambda>d c. dict_set d c v) d0 cs)) \<subseteq> insert v (set (map snd d0))"
proof (induction cs arbitrary: d0)
  case Nil
  show ?case by auto
next
  case (Cons c cs)
  have "set (map snd (foldl (\<lambda>d c. dict_set d c v) (dict_set d0 c v) cs))
          \<subseteq> insert v (set (map snd (dict_set d0 c v)))"
    by (rule Cons.IH)
  also have "\<dots> \<subseteq> insert v (set (map snd d0))"
    using vals_dict_set [of d0 c v] by auto
  finally show ?case by simp
qed

lemma init_categories_keys:
  "fst ` set (init_categories kws) = insert ''business_core'' (fst ` set kws)"
  by (simp add: init_categories_def keys_dict_set foldl_dict_set_keys dict_keys_def)

lemma init_categories_distinct: "distinct (map fst (init_categories kws))"
  by (simp add: init_categories_def distinct_dict_set foldl_dict_set_distinct)

lemma init_categories_empty: "(c, ts) \<in> set (init_categories kws) \<Longrightarrow> ts = []"
proof -
  assume a: "(c, ts) \<in> set (init_categories kws)"
  have "set (map snd (init_categories kws)) \<subseteq> {[]}"
    unfolding init_categories_def
    using vals_dict_set [of "foldl (\<lambda>d category. dict_set d category []) [] (dict_keys kws)" "''business_core''" "[]"]
      foldl_dict_set_vals [of "[]" "[]" "dict_keys kws"]
    by auto
  moreover from a have "ts \<in> set (map snd (init_categories kws))" by force
  ultimately show ?thesis by auto
qed

lemma category_of_key: "category_of kws n \<in> insert ''business_core'' (set (map fst kws))"
proof (cases "find (\<lambda>(category, keywords). list_ex (\<lambda>keyword. contains keyword (lower n)) keywords) kws")
  case None
  then show ?thesis by (simp add: category_of_def)
next
  case (Some p)
  then obtain i where "i < length kws" "kws ! i = p" by (auto simp: find_Some_iff)
  then have "p \<in> set kws" using nth_mem by force
  with Some show ?thesis by (cases p) (force simp: category_of_def)
qed

lemma dict_append_present:
  "k \<in> set (map fst d) \<Longrightarrow> distinct (map fst d) \<Longrightarrow>
   dict_append d k x = Some (map (\<lambda>(c, ts). (c, if c = k then ts @ [x] else ts)) d)"
proof (induction d k x rule: dict_append.induct)
  case (1 k x)
  then show ?case by simp
next
  case (2 k' xs d k x)
  show ?case
  proof (cases "k' = k")
    case True
    with 2 have "k \<notin> set (map fst d)" by simp
    then have "map (\<lambda>(c, ts). (c, if c = k then ts @ [x] else ts)) d = d"
      by (induction d) auto
    with True show ?thesis by simp
  next
    case False
    with 2 show ?thesis by auto
  qed
qed

lemma categorize_loop_result:
  "distinct (map fst d) \<Longrightarrow> insert ''business_core'' (set (map fst kws)) \<subseteq> set (map fst d) \<Longrightarrow>
   categorize_loop kws names d =
     Some (map (\<lambda>(c, ts). (c, ts @ filter (\<lambda>n. category_of kws n = c) names)) d)"
proof (induction names arbitrary: d)
  case Nil
  then show ?case by (simp add: case_prod_unfold)
next
  case (Cons n names)
  let ?k = "category_of kws n"
  let ?d' = "map (\<lambda>(c, ts). (c, if c = ?k then ts @ [n] else ts)) d"
  have k: "?k \<in> set (map fst d)" using Cons.prems(2) category_of_key [of kws n] by blast
  have app: "dict_append d ?k n = Some ?d'"
    by (rule dict_append_present [OF k Cons.prems(1)])
  have keys: "map fst ?d' = map fst d" by (induction d) auto
  have d': "distinct (map fst ?d')" unfolding keys by (rule Cons.prems(1))
  have s': "insert ''business_core'' (set (map fst kws)) \<subseteq> set (map fst ?d')"
    unfolding keys by (rule Cons.prems(2))
  have "categorize_loop kws names ?d' =
      Some (map (\<lambda>(c, ts). (c, ts @ filter (\<lambda>n. category_of kws n = c) names)) ?d')"
    by (rule Cons.IH [OF d' s'])
  then show ?case by (simp add: app case_prod_unfold comp_def) 
qed

lemma fallback_result:
  "fallback_categorize_tables kws names =
     Some (map (\<lambda>(c, ts). (c, filter (\<lambda>n. category_of kws n = c) names)) (init_categories kws))"
proof -
  have "fallback_categorize_tables kws names =
     Some (map (\<lambda>(c, ts). (c, ts @ filter (\<lambda>n. category_of kws n = c) names)) (init_categories kws))"
    unfolding fallback_categorize_tables_def
    by (rule categorize_loop_result) (simp_all add: init_categories_distinct init_categories_keys)
  moreover have "map (\<lambda>(c, ts). (c, ts @ filter (\<lambda>n. category_of kws n = c) names)) (init_categories kws)
     = map (\<lambda>(c, ts). (c, filter (\<lambda>n. category_of kws n = c) names)) (init_categories kws)"
    by (rule map_cong) (auto dest: init_categories_empty)
  ultimately show ?thesis by simp
qed

lemma mset_partition_by_key:
  "distinct cs \<Longrightarrow> \<forall>n \<in> set names. f n \<in> set cs \<Longrightarrow>
   mset (concat (map (\<lambda>c. filter (\<lambda>n. f n = c) names) cs)) = mset names"
proof (induction cs arbitrary: names)
  case Nil
  then show ?case by auto
next
  case (Cons c cs)
  let ?rest = "filter (\<lambda>n. f n \<noteq> c) names"
  have eq: "map (\<lambda>c'. filter (\<lambda>n. f n = c') names) cs = map (\<lambda>c'. filter (\<lambda>n. f n = c') ?rest) cs"
  proof (rule map_cong [OF refl])
    fix c' assume "c' \<in> set cs"
    with Cons.prems(1) have "c' \<noteq> c" by auto
    then show "filter (\<lambda>n. f n = c') names = filter (\<lambda>n. f n = c') ?rest"
      by (auto intro: filter_cong)
  qed
  have ih: "mset (concat (map (\<lambda>c'. filter (\<lambda>n. f n = c') ?rest) cs)) = mset ?rest"
    by (rule Cons.IH) (use Cons.prems in auto)
  have part: "mset (filter (\<lambda>n. f n = c) names) + mset ?rest = mset names"
    by (induction names) auto
  have "mset (concat (map (\<lambda>c'. filter (\<lambda>n. f n = c') names) (c # cs))) =
      mset (filter (\<lambda>n. f n = c) names)
        + mset (concat (map (\<lambda>c'. filter (\<lambda>n. f n = c') names) cs))"
    by simp
  also have "\<dots> = mset (filter (\<lambda>n. f n = c) names) + mset ?rest"
    unfolding eq ih ..
  also have "\<dots> = mset names" by (rule part)
  finally show ?case .
qed

text \<open>
  Claim C7 (category totality and order stability). Fallback categorization always
  returns; its buckets have pairwise different category names; the bucket of a category
  holds exactly the tables whose first matching category (or the catch-all
  \<^verbatim>\<open>business_core\<close>) it is, in the order of the table list; all buckets together hold
  every table as often as the table list does, so no table twice when the table names are
  distinct.
\<close>

theorem category_totality:
  "\<exists>categories. fallback_categorize_tables kws names = Some categories
     \<and> distinct (map fst categories)
     \<and> (\<forall>(c, ts) \<in> set categories. ts = filter (\<lambda>n. category_of kws n = c) names)
     \<and> mset (concat (map snd categories)) = mset names
     \<and> (distinct names \<longrightarrow> distinct (concat (map snd categories)))"
proof -
  let ?cats = "map (\<lambda>(c, ts). (c, filter (\<lambda>n. category_of kws n = c) names)) (init_categories kws)"
  have keys: "map fst ?cats = map fst (init_categories kws)" by (simp add: case_prod_unfold comp_def)
  have vals: "map snd ?cats = map (\<lambda>c. filter (\<lambda>n. category_of kws n = c) names) (map fst (init_categories kws))"
    by (simp add: case_prod_unfold comp_def)
  have m: "mset (concat (map snd ?cats)) = mset names"
    unfolding vals
    by (rule mset_partition_by_key) (use init_categories_distinct init_categories_keys category_of_key in auto)
  have d: "distinct names \<longrightarrow> distinct (concat (map snd ?cats))"
    using m mset_eq_imp_distinct_iff by blast
  have "distinct (map fst ?cats)" unfolding keys by (rule init_categories_distinct)
  moreover have "\<forall>(c, ts) \<in> set ?cats. ts = filter (\<lambda>n. category_of kws n = c) names" by auto
  ultimately show ?thesis using fallback_result [of kws names] m d by blast
qed

theorem category_totality_witness:
  "distinct [''users'', ''Orders'', ''audit_log'', ''user_log'', ''api_keys'']
   \<and> fallback_categorize_tables default_fallback_categorization
         [''users'', ''Orders'', ''audit_log'', ''user_log'', ''api_keys'']
       = Some [(''auth_security'', [''users'', ''user_log'']),
               (''audit_logging'', [''audit_log'']),
               (''configuration'', []),
               (''integration'', [''api_keys'']),
               (''temporary_cache'', []),
               (''business_core'', [''Orders''])]
   \<and> distinct (concat (map snd
         [(''auth_security'', [''users'', ''user_log'']),
          (''audit_logging'', [''audit_log'']),
          (''configuration'', []),
          (''integration'', [''api_keys'']),
          (''temporary_cache'', []),
          (''business_core'', [''Orders''])]))"
proof -
  have e: "fallback_categorize_tables default_fallback_categorization
         [''users'', ''Orders'', ''audit_log'', ''user_log'', ''api_keys'']
       = Some [(''auth_security'', [''users'', ''user_log'']),
               (''audit_logging'', [''audit_log'']),
               (''configuration'', []),
               (''integration'', [''api_keys'']),
               (''temporary_cache'', []),
               (''business_core'', [''Orders''])]"
    by code_simp
  have d: "distinct [''users'', ''Orders'', ''audit_log'', ''user_log'', ''api_keys'']"
    by simp
  from category_totality [of default_fallback_categorization
      "[''users'', ''Orders'', ''audit_log'', ''user_log'', ''api_keys'']"]
  obtain categories where
    c: "fallback_categorize_tables default_fallback_categorization
          [''users'', ''Orders'', ''audit_log'', ''user_log'', ''api_keys''] = Some categories"
    and i: "distinct [''users'', ''Orders'', ''audit_log'', ''user_log'', ''api_keys'']
          \<longrightarrow> distinct (concat (map snd categories))"
    by blast
  from i d have "distinct (concat (map snd categories))" by (rule mp)
  moreover from c e have "categories = [(''auth_security'', [''users'', ''user_log'']),
               (''audit_logging'', [''audit_log'']),
               (''configuration'', []),
               (''integration'', [''api_keys'']),
               (''temporary_cache'', []),
               (''business_core'', [''Orders''])]"
    by (simp only: option.inject)
  ultimately have "distinct (concat (map snd
         [(''auth_security'', [''users'', ''user_log'']),
          (''audit_logging'', [''audit_log'']),
          (''configuration'', []),
          (''integration'', [''api_keys'']),
          (''temporary_cache'', []),
          (''business_core'', [''Orders''])]))"
    by (simp only:)
  with d e show ?thesis by (intro conjI)
qed

section \<open>Properties of the DDL parser\<close>

subsection \<open>Splitting and dictionaries\<close>

lemma split_acc_first:
  "split_acc sep cur s =
     (cur @ takeWhile (\<lambda>c. c \<noteq> sep) s)
       # (case dropWhile (\<lambda>c. c \<noteq> sep) s of [] \<Rightarrow> [] | _ # rest \<Rightarrow> split_acc sep [] rest)"
  by (induction s arbitrary: cur) auto

lemma split_on_first:
  "split_on sep s =
     takeWhile (\<lambda>c. c \<noteq> sep) s
       # (case dropWhile (\<lambda>c. c \<noteq> sep) s of [] \<Rightarrow> [] | _ # rest \<Rightarrow> split_on sep rest)"
  unfolding split_on_def by (subst split_acc_first) simp


lemma map_of_map_entries:
  "map_of (map (\<lambda>(k, v). (k, f k v)) xs) k = map_option (f k) (map_of xs k)"
  by (induction xs) auto

subsection \<open>Column types and default values\<close>

text \<open>
  Claim C3 (type normalization). The two columns of the table below are declared
  \<^verbatim>\<open>character varying(255)\<close> and \<^verbatim>\<open>timestamp with time zone\<close>. The column line is split
  at whitespace and only its second word reaches \<^verbatim>\<open>_simplify_type\<close>, so the types are
  stored as \<^verbatim>\<open>character\<close> and \<^verbatim>\<open>timestamp\<close>; \<^verbatim>\<open>_simplify_type\<close> itself turns the
  whole spellings into \<^verbatim>\<open>varchar\<close> and \<^verbatim>\<open>timestamptz\<close>.
\<close>

theorem verbose_type_stored_as_first_word:
  "tables (parse_schema
       [nl ''CREATE TABLE t ('',
        nl ''    name character varying(255) NOT NULL,'',
        nl ''    created_at timestamp with time zone'',
        nl '');'']
       (init_compressor False))
   = [(''t'',
       \<lparr>columns =
          [(''name'', \<lparr>col_type = ''character'', not_null = True, col_default = None,
                       auto_pk = False\<rparr>),
           (''created_at'', \<lparr>col_type = ''timestamp'', not_null = False, col_default = None,
                             auto_pk = False\<rparr>)],
        constraints = [], indexes = []\<rparr>)]
   \<and> simplify_type ''character varying(255)'' = ''varchar''
   \<and> simplify_type ''timestamp with time zone'' = ''timestamptz''"
  by code_simp

text \<open>
  Claim C5 (default values). The column below has the default \<^verbatim>\<open>'active'::text\<close>. The
  token is searched for in the upper-cased line and taken from there, so what is stored is
  \<^verbatim>\<open>'ACTIVE'::TEXT\<close>, not the token of the line.
\<close>

theorem default_value_upper_cased:
  "tables (parse_schema
       [nl ''CREATE TABLE t ('',
        nl ''    status text DEFAULT 'active'::text NOT NULL'',
        nl '');'']
       (init_compressor False))
   = [(''t'',
       \<lparr>columns =
          [(''status'', \<lparr>col_type = ''text'', not_null = True,
                         col_default = Some '''ACTIVE'::TEXT'', auto_pk = False\<rparr>)],
        constraints = [], indexes = []\<rparr>)]"
  by code_simp

subsection \<open>Statements that name a missing table\<close>

text \<open>
  Claim C8 (dangling references), as stated: the statement is dropped with a diagnostic.
  Below, an index and a constraint are declared for the table \<^verbatim>\<open>u\<close> before the table is
  created, and the compressor is made as \<^verbatim>\<open>main\<close> makes it, with \<^verbatim>\<open>debug=False\<close>. Both
  statements are dropped and are not taken up again when the table appears, but nothing is
  printed.
\<close>

theorem dangling_reference_without_diagnostic:
  "parse_schema
     [nl ''CREATE INDEX u_code_idx ON public.u USING btree (code);'',
      nl ''ALTER TABLE ONLY public.u ADD CONSTRAINT u_code_key UNIQUE (code);'',
      nl ''CREATE TABLE public.u ('',
      nl ''    code text'',
      nl '');'']
     (init_compressor False)
   = \<lparr>tables =
        [(''u'', \<lparr>columns = [(''code'', \<lparr>col_type = ''text'', not_null = False,
                                         col_default = None, auto_pk = False\<rparr>)],
                  constraints = [], indexes = []\<rparr>)],
      sequences = [], default_owner = None, default_schema = ''public'',
      current_table = Some ''u'', debug = False, printed = []\<rparr>"
  by code_simp

text \<open>
  Claim C8, amended. When an \<^verbatim>\<open>ALTER TABLE ... ADD CONSTRAINT\<close> or a \<^verbatim>\<open>CREATE INDEX\<close>
  statement names a table that is not in the model, the statement changes nothing in the
  model (tables, sequences, owner): no trace of it is kept that could be taken up later.
  A diagnostic is printed only when the compressor was created with \<^verbatim>\<open>debug=True\<close>; it
  is then the only change of the state.
\<close>

theorem dangling_reference_dropped:
  "(rx_search rx_alter_table line = Some m \<and> group m 2 = Some table_name
      \<and> table_name \<notin> set (dict_keys (tables s))
    \<longrightarrow> parse_alter_table_constraint line s =
          (if debug s
           then s\<lparr>printed := printed s
                    @ [Table_not_found table_name (take 5 (dict_keys (tables s)))]\<rparr>
           else s))
   \<and> (rx_search rx_create_index line = Some m' \<and> group m' 1 = Some index_name
        \<and> group m' 3 = Some table_name' \<and> table_name' \<notin> set (dict_keys (tables s))
      \<longrightarrow> parse_create_index line s =
            (if debug s
             then s\<lparr>printed := printed s
                      @ [Processing_index index_name table_name',
                         Available_tables (take 5 (dict_keys (tables s))),
                         Index_table_not_found table_name']\<rparr>
             else s))"
  by (simp add: parse_alter_table_constraint_def parse_create_index_def print_debug_def Let_def)

text \<open>The two statements of the example above, with \<^verbatim>\<open>debug=True\<close>.\<close>

theorem dangling_reference_dropped_witness:
  "rx_search rx_alter_table ''ALTER TABLE ONLY public.u ADD CONSTRAINT u_code_key UNIQUE (code);''
     = Some [(2, ''u''), (1, ''public.'')]
   \<and> group [(2, ''u''), (1, ''public.'')] 2 = Some ''u''
   \<and> ''u'' \<notin> set (dict_keys (tables (init_compressor True)))
   \<and> parse_alter_table_constraint
         ''ALTER TABLE ONLY public.u ADD CONSTRAINT u_code_key UNIQUE (code);''
         (init_compressor True)
       = (init_compressor True)\<lparr>printed := [Table_not_found ''u'' []]\<rparr>
   \<and> rx_search rx_create_index ''CREATE INDEX u_code_idx ON public.u USING btree (code);''
       = Some [(3, ''u''), (2, ''public.''), (1, ''u_code_idx'')]
   \<and> group [(3, ''u''), (2, ''public.''), (1, ''u_code_idx'')] 1 = Some ''u_code_idx''
   \<and> group [(3, ''u''), (2, ''public.''), (1, ''u_code_idx'')] 3 = Some ''u''
   \<and> parse_create_index ''CREATE INDEX u_code_idx ON public.u USING btree (code);''
         (init_compressor True)
       = (init_compressor True)\<lparr>printed :=
           [Processing_index ''u_code_idx'' ''u'', Available_tables [],
            Index_table_not_found ''u'']\<rparr>"
proof -
  have a: "rx_search rx_alter_table
        ''ALTER TABLE ONLY public.u ADD CONSTRAINT u_code_key UNIQUE (code);''
      = Some [(2, ''u''), (1, ''public.'')]"
    by code_simp
  have b: "group [(2, ''u''), (1, ''public.'')] 2 = Some ''u''" by code_simp
  have c: "''u'' \<notin> set (dict_keys (tables (init_compressor True)))"
    by (simp add: init_compressor_def dict_keys_def)
  have d: "rx_search rx_create_index ''CREATE INDEX u_code_idx ON public.u USING btree (code);''
      = Some [(3, ''u''), (2, ''public.''), (1, ''u_code_idx'')]"
    by code_simp
  have e: "group [(3, ''u''), (2, ''public.''), (1, ''u_code_idx'')] 1 = Some ''u_code_idx''"
    by code_simp
  have f: "group [(3, ''u''), (2, ''public.''), (1, ''u_code_idx'')] 3 = Some ''u''"
    by code_simp
  note t = dangling_reference_dropped
    [of "''ALTER TABLE ONLY public.u ADD CONSTRAINT u_code_key UNIQUE (code);''"
        "[(2, ''u''), (1, ''public.'')]" "''u''" "init_compressor True"]
  note t' = dangling_reference_dropped
    [of "''CREATE INDEX u_code_idx ON public.u USING btree (code);''" _ _
        "init_compressor True"
        "[(3, ''u''), (2, ''public.''), (1, ''u_code_idx'')]" "''u_code_idx''" "''u''"]
  from t a b c have g: "parse_alter_table_constraint
         ''ALTER TABLE ONLY public.u ADD CONSTRAINT u_code_key UNIQUE (code);''
         (init_compressor True)
       = (init_compressor True)\<lparr>printed := [Table_not_found ''u'' []]\<rparr>"
    by (simp add: init_compressor_def dict_keys_def)
  from t' d e f c have h: "parse_create_index
         ''CREATE INDEX u_code_idx ON public.u USING btree (code);''
         (init_compressor True)
       = (init_compressor True)\<lparr>printed :=
           [Processing_index ''u_code_idx'' ''u'', Available_tables [],
            Index_table_not_found ''u'']\<rparr>"
    by (simp add: init_compressor_def dict_keys_def)
  from a b c g d e f h show ?thesis by (intro conjI)
qed

subsection \<open>The post-pass\<close>

text \<open>
  The constraints that the post-pass is about, in the words of the specification: a
  primary key of a single column that is the ownership target of some sequence.
\<close>

definition auto_pk_constraint ::
    "(string \<times> (string \<times> string) option) list \<Rightarrow> string \<Rightarrow> constraint \<Rightarrow> bool" where
  "auto_pk_constraint seqs table_name c =
     (case c of
        PRIMARY_KEY [pk_col] \<Rightarrow> owned_by_sequence seqs table_name pk_col
      | _ \<Rightarrow> False)"

text \<open>
  The normal form of a table: those constraints are removed, and the columns that they
  name are marked.
\<close>

definition auto_pk_normal_form ::
    "(string \<times> (string \<times> string) option) list \<Rightarrow> string \<Rightarrow> table_info \<Rightarrow> table_info" where
  "auto_pk_normal_form seqs table_name t =
     t\<lparr>columns :=
         map (\<lambda>(col_name, col).
                (col_name,
                 if PRIMARY_KEY [col_name] \<in> set (constraints t)
                    \<and> owned_by_sequence seqs table_name col_name
                 then col\<lparr>auto_pk := True\<rparr> else col))
           (columns t),
       constraints := filter (\<lambda>c. \<not> auto_pk_constraint seqs table_name c) (constraints t)\<rparr>"

text \<open>The integer types of PostgreSQL and their serial forms, by name.\<close>

definition integer_family :: "string list" where
  "integer_family =
     [''smallint'', ''integer'', ''bigint'', ''int'', ''int2'', ''int4'', ''int8'',
      ''smallserial'', ''serial'', ''bigserial'', ''serial2'', ''serial4'', ''serial8'']"

lemma dict_modify_alt:
  "dict_modify d k f = map (\<lambda>(k', v). (k', if k' = k then f v else v)) d"
  by (induction d) (auto simp: dict_modify_def)

lemma mark_auto_pk_eq:
  "mark_auto_pk pk_col t =
     t\<lparr>columns := map (\<lambda>(col_name, col).
                         (col_name, if col_name = pk_col then col\<lparr>auto_pk := True\<rparr> else col))
                     (columns t)\<rparr>"
proof (cases "pk_col \<in> set (dict_keys (columns t))")
  case True
  then show ?thesis by (simp add: mark_auto_pk_def dict_modify_alt)
next
  case False
  then have "map (\<lambda>(col_name, col).
                    (col_name, if col_name = pk_col then col\<lparr>auto_pk := True\<rparr> else col))
               (columns t) = columns t"
    by (intro map_idI) (force simp: dict_keys_def)
  with False show ?thesis by (simp add: mark_auto_pk_def)
qed

lemma auto_pk_constraint_iff:
  "auto_pk_constraint seqs table_name c \<longleftrightarrow>
     (\<exists>pk_col. c = PRIMARY_KEY [pk_col] \<and> owned_by_sequence seqs table_name pk_col)"
  by (auto simp: auto_pk_constraint_def split: constraint.splits list.splits)

lemma auto_pk_constraints_result:
  "auto_pk_constraints seqs table_name pks t =
     t\<lparr>columns :=
         map (\<lambda>(col_name, col).
                (col_name,
                 if PRIMARY_KEY [col_name] \<in> set pks \<and> owned_by_sequence seqs table_name col_name
                 then col\<lparr>auto_pk := True\<rparr> else col))
           (columns t),
       constraints :=
         foldl (\<lambda>cs c. remove1 c cs) (constraints t) (filter (auto_pk_constraint seqs table_name) pks)\<rparr>"
proof (induction pks arbitrary: t)
  case Nil
  have "map (\<lambda>(col_name, col). (col_name, col)) (columns t) = columns t"
    by (intro map_idI) auto
  then show ?case by simp
next
  case (Cons pk pks)
  show ?case
  proof (cases "auto_pk_constraint seqs table_name pk")
    case True
    then obtain pk_col where pk: "pk = PRIMARY_KEY [pk_col]"
      and own: "owned_by_sequence seqs table_name pk_col"
      by (auto simp: auto_pk_constraint_iff)
    have "auto_pk_constraints seqs table_name (pk # pks) t =
        auto_pk_constraints seqs table_name pks
          ((mark_auto_pk pk_col t)\<lparr>constraints := remove1 pk (constraints t)\<rparr>)"
      using pk own by simp
    also have "\<dots> = t\<lparr>columns :=
         map (\<lambda>(col_name, col).
                (col_name,
                 if PRIMARY_KEY [col_name] \<in> set (pk # pks) \<and> owned_by_sequence seqs table_name col_name
                 then col\<lparr>auto_pk := True\<rparr> else col))
           (columns t),
       constraints :=
         foldl (\<lambda>cs c. remove1 c cs) (constraints t)
           (filter (auto_pk_constraint seqs table_name) (pk # pks))\<rparr>"
      unfolding Cons.IH using True pk own
      by (auto simp: mark_auto_pk_eq case_prod_unfold intro!: arg_cong [where f = "\<lambda>c. t\<lparr>columns := c, constraints := _\<rparr>"])
    finally show ?thesis .
  next
    case False
    then have step: "auto_pk_constraints seqs table_name (pk # pks) t =
        auto_pk_constraints seqs table_name pks t"
      by (auto simp: auto_pk_constraint_def split: constraint.splits list.splits)
    have "\<And>col_name. (PRIMARY_KEY [col_name] \<in> set (pk # pks) \<and> owned_by_sequence seqs table_name col_name)
        = (PRIMARY_KEY [col_name] \<in> set pks \<and> owned_by_sequence seqs table_name col_name)"
      using False by (auto simp: auto_pk_constraint_iff)
    then show ?thesis unfolding step Cons.IH using False by simp
  qed
qed

lemma foldl_remove1_filter:
  "\<forall>y \<in> set ys. \<not> Q y \<Longrightarrow>
   foldl (\<lambda>cs c. remove1 c cs) (ys @ xs) (filter Q xs) = ys @ filter (\<lambda>x. \<not> Q x) xs"
proof (induction xs arbitrary: ys)
  case Nil
  then show ?case by simp
next
  case (Cons x xs)
  show ?case
  proof (cases "Q x")
    case True
    with Cons.prems have "x \<notin> set ys" by auto
    then have "remove1 x (ys @ x # xs) = ys @ xs" by (simp add: remove1_append)
    with True Cons.IH [OF Cons.prems] show ?thesis by simp
  next
    case False
    with Cons.prems have "\<forall>y \<in> set (ys @ [x]). \<not> Q y" by auto
    from Cons.IH [OF this] False show ?thesis by simp
  qed
qed

lemma filter_auto_pk_primary:
  "filter (auto_pk_constraint seqs table_name) (filter is_primary_key cs)
     = filter (auto_pk_constraint seqs table_name) cs"
  by (induction cs) (auto simp: auto_pk_constraint_def is_primary_key_def split: constraint.splits)

lemma auto_pk_table:
  "auto_pk_constraints seqs table_name (filter is_primary_key (constraints t)) t
     = auto_pk_normal_form seqs table_name t"
proof -
  have a: "foldl (\<lambda>cs c. remove1 c cs) (constraints t)
          (filter (auto_pk_constraint seqs table_name) (constraints t))
        = filter (\<lambda>c. \<not> auto_pk_constraint seqs table_name c) (constraints t)"
    using foldl_remove1_filter [of "[]" "auto_pk_constraint seqs table_name" "constraints t"]
    by simp
  have b: "\<And>col_name. PRIMARY_KEY [col_name] \<in> set (filter is_primary_key (constraints t))
      \<longleftrightarrow> PRIMARY_KEY [col_name] \<in> set (constraints t)"
    by (auto simp: is_primary_key_def)
  show ?thesis
    unfolding auto_pk_constraints_result auto_pk_normal_form_def filter_auto_pk_primary a b ..
qed

text \<open>
  Claim C2 (auto-PK normalization), as stated: the type of the column is forced to an
  integer-family type. The key column below is declared \<^verbatim>\<open>text\<close>; the post-pass removes
  the primary key and marks the column, and the type stays \<^verbatim>\<open>text\<close>.
\<close>

theorem auto_pk_type_not_forced:
  "tables (parse_schema
       [nl ''CREATE TABLE t ('',
        nl ''    id text NOT NULL'',
        nl '');'',
        nl ''CREATE SEQUENCE t_id_seq'',
        nl ''ALTER SEQUENCE t_id_seq OWNED BY t.id;'',
        nl ''ALTER TABLE t ADD CONSTRAINT t_pkey PRIMARY KEY (id);'']
       (init_compressor False))
   = [(''t'',
       \<lparr>columns = [(''id'', \<lparr>col_type = ''text'', not_null = True, col_default = None,
                              auto_pk = True\<rparr>)],
        constraints = [], indexes = []\<rparr>)]
   \<and> ''text'' \<notin> set integer_family"
  by code_simp

text \<open>
  Claim C2, amended. Take a table with a primary key of the single column \<open>pk_col\<close>, where
  \<open>pk_col\<close> is a column of the table and the ownership target of some sequence. After the
  post-pass the table has no such constraint left, the column is marked \<open>auto_pk\<close> and is
  otherwise as it was, its declared type included (no type is forced); the constraints
  that are not single-column keys owned by a sequence are kept in their order, and every
  column of the table keeps its name, its place and its type. For the example of the
  specification (a table \<^verbatim>\<open>t\<close> with \<^verbatim>\<open>id integer NOT NULL\<close>, a sequence owned by
  \<^verbatim>\<open>t.id\<close> and the primary key \<^verbatim>\<open>(id)\<close>) the column \<^verbatim>\<open>id\<close> is marked and \<^verbatim>\<open>t\<close> has
  no constraint left. Nothing is said of a key whose column is not among the columns of
  the table.
\<close>

theorem auto_pk_normalization:
  "(dict_get (tables s) table_name = Some t
      \<and> PRIMARY_KEY [pk_col] \<in> set (constraints t)
      \<and> owned_by_sequence (sequences s) table_name pk_col
      \<and> dict_get (columns t) pk_col = Some col
    \<longrightarrow> (\<exists>t'. dict_get (tables (identify_auto_pk_columns s)) table_name = Some t'
           \<and> PRIMARY_KEY [pk_col] \<notin> set (constraints t')
           \<and> dict_get (columns t') pk_col = Some (col\<lparr>auto_pk := True\<rparr>)
           \<and> filter (\<lambda>c. \<not> auto_pk_constraint (sequences s) table_name c) (constraints t')
               = filter (\<lambda>c. \<not> auto_pk_constraint (sequences s) table_name c) (constraints t)
           \<and> map (\<lambda>(col_name, c). (col_name, col_type c)) (columns t')
               = map (\<lambda>(col_name, c). (col_name, col_type c)) (columns t)))
   \<and> tables (parse_schema
         [nl ''CREATE TABLE t ('',
          nl ''    id integer NOT NULL,'',
          nl ''    name text'',
          nl '');'',
          nl ''CREATE SEQUENCE t_id_seq'',
          nl ''ALTER SEQUENCE t_id_seq OWNED BY t.id;'',
          nl ''ALTER TABLE t ADD CONSTRAINT t_pkey PRIMARY KEY (id);'']
         (init_compressor False))
      = [(''t'',
          \<lparr>columns = [(''id'', \<lparr>col_type = ''integer'', not_null = True,
                                 col_default = None, auto_pk = True\<rparr>),
                      (''name'', \<lparr>col_type = ''text'', not_null = False,
                                   col_default = None, auto_pk = False\<rparr>)],
           constraints = [], indexes = []\<rparr>)]"
proof (intro conjI impI)
  assume a: "dict_get (tables s) table_name = Some t
      \<and> PRIMARY_KEY [pk_col] \<in> set (constraints t)
      \<and> owned_by_sequence (sequences s) table_name pk_col
      \<and> dict_get (columns t) pk_col = Some col"
  let ?t' = "auto_pk_normal_form (sequences s) table_name t"
  have "tables (identify_auto_pk_columns s) =
     map (\<lambda>(table_name, t). (table_name, auto_pk_normal_form (sequences s) table_name t))
       (tables s)"
    by (simp add: identify_auto_pk_columns_def auto_pk_table)
  with a have t': "dict_get (tables (identify_auto_pk_columns s)) table_name = Some ?t'"
    by (simp add: dict_get_def map_of_map_entries)
  from a have "auto_pk_constraint (sequences s) table_name (PRIMARY_KEY [pk_col])"
    by (simp add: auto_pk_constraint_def)
  then have removed: "PRIMARY_KEY [pk_col] \<notin> set (constraints ?t')"
    by (simp add: auto_pk_normal_form_def)
  from a have marked: "dict_get (columns ?t') pk_col = Some (col\<lparr>auto_pk := True\<rparr>)"
    by (simp add: auto_pk_normal_form_def dict_get_def map_of_map_entries)
  have others: "filter (\<lambda>c. \<not> auto_pk_constraint (sequences s) table_name c) (constraints ?t')
      = filter (\<lambda>c. \<not> auto_pk_constraint (sequences s) table_name c) (constraints t)"
    by (simp add: auto_pk_normal_form_def)
  have types: "map (\<lambda>(col_name, c). (col_name, col_type c)) (columns ?t')
      = map (\<lambda>(col_name, c). (col_name, col_type c)) (columns t)"
    by (simp add: auto_pk_normal_form_def case_prod_unfold comp_def)
  from t' removed marked others types
  show "\<exists>t'. dict_get (tables (identify_auto_pk_columns s)) table_name = Some t'
           \<and> PRIMARY_KEY [pk_col] \<notin> set (constraints t')
           \<and> dict_get (columns t') pk_col = Some (col\<lparr>auto_pk := True\<rparr>)
           \<and> filter (\<lambda>c. \<not> auto_pk_constraint (sequences s) table_name c) (constraints t')
               = filter (\<lambda>c. \<not> auto_pk_constraint (sequences s) table_name c) (constraints t)
           \<and> map (\<lambda>(col_name, c). (col_name, col_type c)) (columns t')
               = map (\<lambda>(col_name, c). (col_name, col_type c)) (columns t)"
    by blast
next
  show "tables (parse_schema
         [nl ''CREATE TABLE t ('',
          nl ''    id integer NOT NULL,'',
          nl ''    name text'',
          nl '');'',
          nl ''CREATE SEQUENCE t_id_seq'',
          nl ''ALTER SEQUENCE t_id_seq OWNED BY t.id;'',
          nl ''ALTER TABLE t ADD CONSTRAINT t_pkey PRIMARY KEY (id);'']
         (init_compressor False))
      = [(''t'',
          \<lparr>columns = [(''id'', \<lparr>col_type = ''integer'', not_null = True,
                                 col_default = None, auto_pk = True\<rparr>),
                      (''name'', \<lparr>col_type = ''text'', not_null = False,
                                   col_default = None, auto_pk = False\<rparr>)],
           constraints = [], indexes = []\<rparr>)]"
    by code_simp
qed

text \<open>
  The same table with a key column of type \<^verbatim>\<open>bigint\<close> and a second constraint, before the
  post-pass: the key is removed, the column is marked and stays \<^verbatim>\<open>bigint\<close>.
\<close>

theorem auto_pk_normalization_witness:
  "dict_get (tables (parse_loop
         [nl ''CREATE TABLE t ('',
          nl ''    id bigint NOT NULL,'',
          nl ''    name text'',
          nl '');'',
          nl ''CREATE SEQUENCE t_id_seq'',
          nl ''ALTER SEQUENCE t_id_seq OWNED BY t.id;'',
          nl ''ALTER TABLE t ADD CONSTRAINT t_pkey PRIMARY KEY (id);'',
          nl ''ALTER TABLE t ADD CONSTRAINT t_name_key UNIQUE (name);'']
         0 (init_compressor False))) ''t''
     = Some \<lparr>columns = [(''id'', \<lparr>col_type = ''bigint'', not_null = True,
                                   col_default = None, auto_pk = False\<rparr>),
                        (''name'', \<lparr>col_type = ''text'', not_null = False,
                                     col_default = None, auto_pk = False\<rparr>)],
             constraints = [PRIMARY_KEY [''id''], UNIQUE [''name'']], indexes = []\<rparr>
   \<and> owned_by_sequence (sequences (parse_loop
         [nl ''CREATE TABLE t ('',
          nl ''    id bigint NOT NULL,'',
          nl ''    name text'',
          nl '');'',
          nl ''CREATE SEQUENCE t_id_seq'',
          nl ''ALTER SEQUENCE t_id_seq OWNED BY t.id;'',
          nl ''ALTER TABLE t ADD CONSTRAINT t_pkey PRIMARY KEY (id);'',
          nl ''ALTER TABLE t ADD CONSTRAINT t_name_key UNIQUE (name);'']
         0 (init_compressor False))) ''t'' ''id''
   \<and> (\<exists>t'. dict_get (tables (identify_auto_pk_columns (parse_loop
         [nl ''CREATE TABLE t ('',
          nl ''    id bigint NOT NULL,'',
          nl ''    name text'',
          nl '');'',
          nl ''CREATE SEQUENCE t_id_seq'',
          nl ''ALTER SEQUENCE t_id_seq OWNED BY t.id;'',
          nl ''ALTER TABLE t ADD CONSTRAINT t_pkey PRIMARY KEY (id);'',
          nl ''ALTER TABLE t ADD CONSTRAINT t_name_key UNIQUE (name);'']
         0 (init_compressor False)))) ''t'' = Some t'
        \<and> PRIMARY_KEY [''id''] \<notin> set (constraints t')
        \<and> dict_get (columns t') ''id''
            = Some \<lparr>col_type = ''bigint'', not_null = True, col_default = None, auto_pk = True\<rparr>)"
proof -
  let ?lines = "[nl ''CREATE TABLE t ('',
          nl ''    id bigint NOT NULL,'',
          nl ''    name text'',
          nl '');'',
          nl ''CREATE SEQUENCE t_id_seq'',
          nl ''ALTER SEQUENCE t_id_seq OWNED BY t.id;'',
          nl ''ALTER TABLE t ADD CONSTRAINT t_pkey PRIMARY KEY (id);'',
          nl ''ALTER TABLE t ADD CONSTRAINT t_name_key UNIQUE (name);'']"
  let ?s = "parse_loop ?lines 0 (init_compressor False)"
  let ?col = "\<lparr>col_type = ''bigint'', not_null = True, col_default = None, auto_pk = False\<rparr>"
  let ?t = "\<lparr>columns = [(''id'', ?col),
                        (''name'', \<lparr>col_type = ''text'', not_null = False,
                                     col_default = None, auto_pk = False\<rparr>)],
             constraints = [PRIMARY_KEY [''id''], UNIQUE [''name'']], indexes = []\<rparr>"
  have t: "dict_get (tables ?s) ''t'' = Some ?t" by code_simp
  have own: "owned_by_sequence (sequences ?s) ''t'' ''id''" by code_simp
  have pk: "PRIMARY_KEY [''id''] \<in> set (constraints ?t)" by simp
  have col: "dict_get (columns ?t) ''id'' = Some ?col" by (simp add: dict_get_def)
  from auto_pk_normalization [of ?s "''t''" ?t "''id''" ?col] t pk own col
  have "\<exists>t'. dict_get (tables (identify_auto_pk_columns ?s)) ''t'' = Some t'
           \<and> PRIMARY_KEY [''id''] \<notin> set (constraints t')
           \<and> dict_get (columns t') ''id'' = Some (?col\<lparr>auto_pk := True\<rparr>)"
    by blast
  then have "\<exists>t'. dict_get (tables (identify_auto_pk_columns ?s)) ''t'' = Some t'
           \<and> PRIMARY_KEY [''id''] \<notin> set (constraints t')
           \<and> dict_get (columns t') ''id''
            = Some \<lparr>col_type = ''bigint'', not_null = True, col_default = None, auto_pk = True\<rparr>"
    by simp
  with t own show ?thesis by (intro conjI)
qed

subsection \<open>Foreign keys with a short list of referenced columns\<close>

text \<open>
  Every list made by \<^verbatim>\<open>[col.strip() for col in text.split(',')]\<close> has an element, so
  the referenced columns of a parsed foreign key are never an empty list.
\<close>

definition refs_nonempty :: "constraint \<Rightarrow> bool" where
  "refs_nonempty c =
     (case c of FOREIGN_KEY cols ref_table ref_columns d \<Rightarrow> ref_columns \<noteq> [] | _ \<Rightarrow> True)"

definition fk_refs_nonempty :: "compressor \<Rightarrow> bool" where
  "fk_refs_nonempty s = list_all (\<lambda>(table_name, t). list_all refs_nonempty (constraints t)) (tables s)"

lemma column_list_nonempty: "column_list text \<noteq> []"
  unfolding column_list_def by (subst split_on_first) simp

lemma fk_refs_iff:
  "fk_refs_nonempty s \<longleftrightarrow>
     (\<forall>table_name t c. (table_name, t) \<in> set (tables s) \<longrightarrow> c \<in> set (constraints t)
        \<longrightarrow> refs_nonempty c)"
  by (auto simp: fk_refs_nonempty_def list_all_iff)

lemma fk_refs_modify_table:
  assumes "fk_refs_nonempty s"
    and "\<And>t c. \<forall>c \<in> set (constraints t). refs_nonempty c \<Longrightarrow> c \<in> set (constraints (f t))
          \<Longrightarrow> refs_nonempty c"
  shows "fk_refs_nonempty (modify_table table_name f s)"
  unfolding fk_refs_iff
proof (intro allI impI)
  fix n t c
  assume a: "(n, t) \<in> set (tables (modify_table table_name f s))" and c: "c \<in> set (constraints t)"
  from a obtain t0 where t0: "(n, t0) \<in> set (tables s)" and t: "t = f t0 \<or> t = t0"
    by (auto simp: modify_table_def dict_modify_def split: if_splits)
  from t0 assms(1) have ok: "\<forall>c \<in> set (constraints t0). refs_nonempty c"
    by (auto simp: fk_refs_iff)
  from t show "refs_nonempty c"
  proof
    assume "t = f t0"
    with c ok assms(2) [of t0 c] show ?thesis by simp
  next
    assume "t = t0"
    with c ok show ?thesis by simp
  qed
qed

lemma fk_refs_print_debug [simp]: "fk_refs_nonempty (print_debug d s) = fk_refs_nonempty s"
  by (simp add: fk_refs_nonempty_def print_debug_def)

lemma fk_refs_add_constraint:
  "fk_refs_nonempty s \<Longrightarrow> refs_nonempty c \<Longrightarrow> fk_refs_nonempty (add_constraint table_name c s)"
  unfolding add_constraint_def by (rule fk_refs_modify_table) auto

lemma fk_refs_parse_column_definition:
  "fk_refs_nonempty s \<Longrightarrow> fk_refs_nonempty (parse_column_definition line table_name s)"
  unfolding parse_column_definition_def Let_def
  by (auto split: list.splits intro!: fk_refs_modify_table)

lemma fk_refs_column_lines:
  "fk_refs_nonempty s \<Longrightarrow> fk_refs_nonempty (snd (column_lines ls table_name s))"
proof (induction ls arbitrary: s)
  case Nil
  then show ?case by simp
next
  case (Cons l ls)
  show ?case
  proof (cases "strip l = '');'' \<or> startswith (strip l) '');''")
    case True
    with Cons.prems show ?thesis by auto
  next
    case False
    let ?s' = "if strip l \<noteq> [] \<and> \<not> startswith (strip l) ''--''
               then parse_column_definition (strip l) table_name s else s"
    have "fk_refs_nonempty ?s'"
      using Cons.prems by (simp add: fk_refs_parse_column_definition)
    then have ih: "fk_refs_nonempty (snd (column_lines ls table_name ?s'))" by (rule Cons.IH)
    have "snd (column_lines (l # ls) table_name s) = snd (column_lines ls table_name ?s')"
      using False by (cases "column_lines ls table_name ?s'") (simp add: Let_def)
    with ih show ?thesis by simp
  qed
qed

lemma list_all_dict_set:
  "list_all P d \<Longrightarrow> P (k, v) \<Longrightarrow> list_all P (dict_set d k v)"
  by (induction d k v rule: dict_set.induct) auto

lemma fk_refs_fields [simp]:
  "fk_refs_nonempty (s\<lparr>current_table := x\<rparr>) = fk_refs_nonempty s"
  "fk_refs_nonempty (s\<lparr>sequences := y\<rparr>) = fk_refs_nonempty s"
  "fk_refs_nonempty (s\<lparr>default_owner := z\<rparr>) = fk_refs_nonempty s"
  by (simp_all add: fk_refs_nonempty_def)

lemma fk_refs_new_table:
  "fk_refs_nonempty s \<Longrightarrow>
   fk_refs_nonempty (s\<lparr>tables := dict_set (tables s) table_name empty_table\<rparr>)"
  by (simp add: fk_refs_nonempty_def list_all_dict_set empty_table_def)

lemma fk_refs_parse_create_table:
  assumes "fk_refs_nonempty s"
  shows "fk_refs_nonempty (snd (parse_create_table lines start_idx s))"
proof (cases "rx_search rx_create_table (strip (lines ! start_idx))")
  case None
  with assms show ?thesis by (simp add: parse_create_table_def)
next
  case (Some m)
  show ?thesis
  proof (cases "group m 2")
    case None
    with Some assms show ?thesis by (simp add: parse_create_table_def)
  next
    case (Some table_name)
    let ?s1 = "s\<lparr>current_table := Some table_name\<rparr>"
    let ?s2 = "if table_name \<in> set (dict_keys (tables ?s1)) then ?s1
               else ?s1\<lparr>tables := dict_set (tables ?s1) table_name empty_table\<rparr>"
    have "fk_refs_nonempty ?s2"
      using assms fk_refs_new_table [of ?s1 table_name] by simp
    then have "fk_refs_nonempty
        (snd (column_lines (drop (start_idx + 1) lines) table_name ?s2))"
      by (rule fk_refs_column_lines)
    moreover have "snd (parse_create_table lines start_idx s)
        = snd (column_lines (drop (start_idx + 1) lines) table_name ?s2)"
      using \<open>rx_search rx_create_table (strip (lines ! start_idx)) = Some m\<close> Some
      by (cases "column_lines (drop (start_idx + 1) lines) table_name ?s2")
         (simp add: parse_create_table_def Let_def)
    ultimately show ?thesis by simp
  qed
qed

lemma fk_refs_parse_alter:
  "fk_refs_nonempty s \<Longrightarrow> fk_refs_nonempty (parse_alter_table_constraint line s)"
  unfolding parse_alter_table_constraint_def
  by (auto split: option.splits
      intro!: fk_refs_add_constraint simp: refs_nonempty_def column_list_nonempty)

lemma fk_refs_parse_create_index:
  "fk_refs_nonempty s \<Longrightarrow> fk_refs_nonempty (parse_create_index line s)"
  unfolding parse_create_index_def Let_def
  by (auto split: option.splits intro!: fk_refs_modify_table)

lemma fk_refs_parse_statement:
  "fk_refs_nonempty s \<Longrightarrow> fk_refs_nonempty (snd (parse_statement lines i s))"
proof -
  assume a: "fk_refs_nonempty s"
  have o: "fk_refs_nonempty (parse_owner line s)" for line
    using a by (auto simp: parse_owner_def split: option.splits)
  have q: "fk_refs_nonempty (snd (parse_create_sequence lines i s'))" if "fk_refs_nonempty s'" for s'
    using that by (auto simp: parse_create_sequence_def Let_def split: option.splits)
  have w: "fk_refs_nonempty (parse_sequence_owned_by line s')" if "fk_refs_nonempty s'" for s' line
    using that by (auto simp: parse_sequence_owned_by_def split: option.splits)
  show ?thesis
    unfolding parse_statement_def Let_def
    by (simp add: o q w fk_refs_parse_create_table fk_refs_parse_alter fk_refs_parse_create_index)
qed

lemma fk_refs_parse_loop:
  "fk_refs_nonempty s \<Longrightarrow> fk_refs_nonempty (parse_loop lines i s)"
proof (induction lines i s rule: parse_loop.induct)
  case (1 lines i s)
  show ?case
  proof (cases "i < length lines")
    case True
    have "fk_refs_nonempty (snd (parse_statement lines i s))"
      using "1.prems" by (rule fk_refs_parse_statement)
    from "1.IH" [OF True this] True show ?thesis by (subst parse_loop.simps) simp
  next
    case False
    with "1.prems" show ?thesis by (subst parse_loop.simps) simp
  qed
qed

lemma fk_refs_identify:
  "fk_refs_nonempty s \<Longrightarrow> fk_refs_nonempty (identify_auto_pk_columns s)"
  by (auto simp: fk_refs_iff identify_auto_pk_columns_def auto_pk_table auto_pk_normal_form_def)

lemma fk_refs_parse_schema: "fk_refs_nonempty (parse_schema lines (init_compressor dbg))"
proof -
  have "fk_refs_nonempty (init_compressor dbg)"
    by (simp add: fk_refs_nonempty_def init_compressor_def)
  then show ?thesis
    unfolding parse_schema_def by (intro fk_refs_identify fk_refs_parse_loop)
qed


lemma ref_col_at_nonempty:
  "ref_columns \<noteq> [] \<Longrightarrow>
   ref_col_at ref_columns i = Inr (if i < length ref_columns then ref_columns ! i else ref_columns ! 0)"
  by (cases ref_columns) (simp_all add: ref_col_at_def)

lemma fk_lines_broadcast:
  "ref_columns \<noteq> [] \<Longrightarrow>
   fk_lines i cols ref_table ref_columns d =
     Inr (map (\<lambda>(j, local_col).
                 fk_def local_col ref_table
                   (if j < length ref_columns then ref_columns ! j else ref_columns ! 0) d)
            (enumerate i cols))"
  by (induction cols arbitrary: i) (simp_all add: ref_col_at_nonempty)

lemma constraint_lines_total:
  "refs_nonempty c \<Longrightarrow> \<exists>ls. constraint_lines c = Inr ls"
  by (cases c) (simp_all add: refs_nonempty_def fk_lines_broadcast)

lemma all_lines_total:
  "\<forall>x \<in> set xs. \<exists>ls. f x = Inr ls \<Longrightarrow> \<exists>ls. all_lines f xs = Inr ls"
  by (induction xs) auto

lemma output_lines_total:
  assumes "fk_refs_nonempty s"
  shows "\<exists>ls. output_lines s = Inr ls"
proof -
  have "\<exists>ls. table_lines x = Inr ls" if "x \<in> set (tables s)" for x
  proof -
    obtain table_name t where x: "x = (table_name, t)" by (cases x)
    with that assms have "\<forall>c \<in> set (constraints t). refs_nonempty c"
      by (auto simp: fk_refs_iff)
    then have "\<exists>ls. all_lines constraint_lines (constraints t) = Inr ls"
      by (intro all_lines_total) (auto intro: constraint_lines_total)
    with x show ?thesis by (auto simp: table_lines_def)
  qed
  then have "\<exists>ls. all_lines table_lines (tables s) = Inr ls"
    by (intro all_lines_total) auto
  then show ?thesis by (auto simp: output_lines_def)
qed

lemma all_lines_mem:
  "all_lines f xs = Inr ls \<Longrightarrow> x \<in> set xs \<Longrightarrow>
   \<exists>l before after. f x = Inr l \<and> ls = before @ l @ after"
proof (induction xs arbitrary: ls)
  case Nil
  then show ?case by simp
next
  case (Cons y ys)
  from Cons.prems(1) obtain l0 rest where y: "f y = Inr l0"
    and rest: "all_lines f ys = Inr rest" and ls: "ls = l0 @ rest"
    by (auto split: sum.splits)
  from Cons.prems(2) have "x = y \<or> x \<in> set ys" by simp
  then show ?case
  proof
    assume "x = y"
    with y ls have "f x = Inr l0 \<and> ls = [] @ l0 @ rest" by simp
    then show ?thesis by blast
  next
    assume "x \<in> set ys"
    from Cons.IH [OF rest this] obtain l b a where "f x = Inr l" "rest = b @ l @ a" by blast
    with ls have "f x = Inr l \<and> ls = (l0 @ b) @ l @ a" by simp
    then show ?thesis by blast
  qed
qed

lemma output_lines_mem:
  assumes "output_lines s = Inr ls"
    and "(table_name, t) \<in> set (tables s)"
    and "c \<in> set (constraints t)"
  shows "\<exists>l before after. constraint_lines c = Inr l \<and> ls = before @ l @ after"
proof -
  from assms(1) obtain tls where tls: "all_lines table_lines (tables s) = Inr tls"
    and ls: "ls = header_line s # [] # tls"
    by (auto simp: output_lines_def split: sum.splits)
  from all_lines_mem [OF tls assms(2)] obtain tl b a
    where tl: "table_lines (table_name, t) = Inr tl" and tls': "tls = b @ tl @ a" by blast
  from tl obtain cls where cls: "all_lines constraint_lines (constraints t) = Inr cls"
    and tl': "tl = [table_name @ '':'']
                  @ map (\<lambda>(col_name, col_info). column_line col_name col_info) (columns t)
                  @ cls @ map index_line (indexes t) @ [[]]"
    by (auto simp: table_lines_def split: sum.splits)
  from all_lines_mem [OF cls assms(3)] obtain l b' a'
    where l: "constraint_lines c = Inr l" and cls': "cls = b' @ l @ a'" by blast
  let ?before = "header_line s # [] # b @ [table_name @ '':'']
                  @ map (\<lambda>(col_name, col_info). column_line col_name col_info) (columns t) @ b'"
  let ?after = "a' @ map index_line (indexes t) @ [[]] @ a"
  have "ls = ?before @ l @ ?after" by (simp add: ls tls' tl' cls')
  with l show ?thesis by blast
qed

text \<open>
  Claim C9 (broadcast of the first referenced column). Serializing a model that the
  parser has produced never fails: it returns a text. Every foreign key of such a model
  has at least one referenced column, and the text holds, as consecutive lines and in the
  order of the local columns, one \<^verbatim>\<open>FK\<close> line for each local column: the line of the
  local column at position \<open>i\<close> names the referenced column at position \<open>i\<close> when the list
  of referenced columns is that long, and the first referenced column otherwise.
\<close>

theorem fk_broadcast:
  "(\<exists>text. generate_compressed_schema (parse_schema lines (init_compressor dbg)) = Inr text)
   \<and> ((table_name, t) \<in> set (tables (parse_schema lines (init_compressor dbg)))
        \<and> FOREIGN_KEY cols ref_table ref_columns d \<in> set (constraints t)
      \<longrightarrow> ref_columns \<noteq> []
          \<and> (\<exists>before after.
                generate_compressed_schema (parse_schema lines (init_compressor dbg)) =
                  Inr (join [CHR 0x0A]
                        (before
                         @ map (\<lambda>(i, local_col).
                                  ''  FK ('' @ local_col @ '') > '' @ ref_table @ ''(''
                                    @ (if i < length ref_columns then ref_columns ! i
                                       else ref_columns ! 0)
                                    @ '')'' @ (if d then '' DEFERRABLE'' else []))
                             (enumerate 0 cols)
                         @ after))))"
proof (intro conjI impI)
  let ?s = "parse_schema lines (init_compressor dbg)"
  have ok: "fk_refs_nonempty ?s" by (rule fk_refs_parse_schema)
  from output_lines_total [OF ok] obtain ls where ls: "output_lines ?s = Inr ls" by blast
  then show "\<exists>text. generate_compressed_schema ?s = Inr text"
    by (simp add: generate_compressed_schema_def)
  assume a: "(table_name, t) \<in> set (tables ?s)
        \<and> FOREIGN_KEY cols ref_table ref_columns d \<in> set (constraints t)"
  with ok have "refs_nonempty (FOREIGN_KEY cols ref_table ref_columns d)"
    unfolding fk_refs_iff by blast
  then show ne: "ref_columns \<noteq> []" by (simp add: refs_nonempty_def)
  from output_lines_mem [OF ls] a obtain l before after
    where l: "constraint_lines (FOREIGN_KEY cols ref_table ref_columns d) = Inr l"
      and split: "ls = before @ l @ after" by blast
  from l ne have "l = map (\<lambda>(i, local_col).
                                  ''  FK ('' @ local_col @ '') > '' @ ref_table @ ''(''
                                    @ (if i < length ref_columns then ref_columns ! i
                                       else ref_columns ! 0)
                                    @ '')'' @ (if d then '' DEFERRABLE'' else []))
                             (enumerate 0 cols)"
    by (simp add: fk_lines_broadcast fk_def_def)
  with split ls show "\<exists>before after.
                generate_compressed_schema ?s =
                  Inr (join [CHR 0x0A]
                        (before
                         @ map (\<lambda>(i, local_col).
                                  ''  FK ('' @ local_col @ '') > '' @ ref_table @ ''(''
                                    @ (if i < length ref_columns then ref_columns ! i
                                       else ref_columns ! 0)
                                    @ '')'' @ (if d then '' DEFERRABLE'' else []))
                             (enumerate 0 cols)
                         @ after))"
    by (auto simp: generate_compressed_schema_def)
qed

text \<open>
  A foreign key over the two columns \<^verbatim>\<open>(a, b)\<close> that references the single column
  \<^verbatim>\<open>u(code)\<close>: both lines of the text name \<^verbatim>\<open>code\<close>.
\<close>

theorem fk_broadcast_witness:
  "(''t'', \<lparr>columns = [(''a'', \<lparr>col_type = ''integer'', not_null = False, col_default = None,
                                auto_pk = False\<rparr>),
                       (''b'', \<lparr>col_type = ''integer'', not_null = False, col_default = None,
                                auto_pk = False\<rparr>)],
            constraints = [FOREIGN_KEY [''a'', ''b''] ''u'' [''code''] False],
            indexes = []\<rparr>)
     \<in> set (tables (parse_schema
          [nl ''CREATE TABLE public.t ('',
           nl ''    a integer,'',
           nl ''    b integer'',
           nl '');'',
           nl ''ALTER TABLE ONLY public.t'',
           nl ''    ADD CONSTRAINT t_fk FOREIGN KEY (a, b) REFERENCES public.u(code);'']
          (init_compressor False)))
   \<and> (\<exists>before after.
         generate_compressed_schema (parse_schema
          [nl ''CREATE TABLE public.t ('',
           nl ''    a integer,'',
           nl ''    b integer'',
           nl '');'',
           nl ''ALTER TABLE ONLY public.t'',
           nl ''    ADD CONSTRAINT t_fk FOREIGN KEY (a, b) REFERENCES public.u(code);'']
          (init_compressor False))
         = Inr (join [CHR 0x0A]
                  (before @ [''  FK (a) > u(code)'', ''  FK (b) > u(code)''] @ after)))
   \<and> generate_compressed_schema (parse_schema
          [nl ''CREATE TABLE public.t ('',
           nl ''    a integer,'',
           nl ''    b integer'',
           nl '');'',
           nl ''ALTER TABLE ONLY public.t'',
           nl ''    ADD CONSTRAINT t_fk FOREIGN KEY (a, b) REFERENCES public.u(code);'']
          (init_compressor False))
       = Inr (join [CHR 0x0A]
                [''-- Schema: public'', [], ''t:'', ''  a: integer'', ''  b: integer'',
                 ''  FK (a) > u(code)'', ''  FK (b) > u(code)'', []])"
proof -
  let ?t = "\<lparr>columns = [(''a'', \<lparr>col_type = ''integer'', not_null = False, col_default = None,
                                auto_pk = False\<rparr>),
                       (''b'', \<lparr>col_type = ''integer'', not_null = False, col_default = None,
                                auto_pk = False\<rparr>)],
            constraints = [FOREIGN_KEY [''a'', ''b''] ''u'' [''code''] False],
            indexes = []\<rparr>"
  let ?lines = "[nl ''CREATE TABLE public.t ('',
           nl ''    a integer,'',
           nl ''    b integer'',
           nl '');'',
           nl ''ALTER TABLE ONLY public.t'',
           nl ''    ADD CONSTRAINT t_fk FOREIGN KEY (a, b) REFERENCES public.u(code);'']"
  have p: "tables (parse_schema ?lines (init_compressor False)) = [(''t'', ?t)]"
    by code_simp
  then have m: "(''t'', ?t) \<in> set (tables (parse_schema ?lines (init_compressor False)))"
    by simp
  have c: "FOREIGN_KEY [''a'', ''b''] ''u'' [''code''] False \<in> set (constraints ?t)"
    by simp
  have e: "map (\<lambda>(i, local_col).
                  ''  FK ('' @ local_col @ '') > '' @ ''u'' @ ''(''
                    @ (if i < length [''code''] then [''code''] ! i else [''code''] ! 0)
                    @ '')'' @ (if False then '' DEFERRABLE'' else []))
             (enumerate 0 [''a'', ''b''])
           = [''  FK (a) > u(code)'', ''  FK (b) > u(code)'']"
    by simp
  from fk_broadcast [of ?lines False "''t''" ?t "[''a'', ''b'']" "''u''" "[''code'']" False] m c
  have "\<exists>before after.
         generate_compressed_schema (parse_schema ?lines (init_compressor False))
         = Inr (join [CHR 0x0A]
                  (before
                   @ map (\<lambda>(i, local_col).
                            ''  FK ('' @ local_col @ '') > '' @ ''u'' @ ''(''
                              @ (if i < length [''code''] then [''code''] ! i else [''code''] ! 0)
                              @ '')'' @ (if False then '' DEFERRABLE'' else []))
                       (enumerate 0 [''a'', ''b''])
                   @ after))"
    by blast
  then have x: "\<exists>before after.
         generate_compressed_schema (parse_schema ?lines (init_compressor False))
         = Inr (join [CHR 0x0A]
                  (before @ [''  FK (a) > u(code)'', ''  FK (b) > u(code)''] @ after))"
    unfolding e .
  have g: "generate_compressed_schema (parse_schema ?lines (init_compressor False))
       = Inr (join [CHR 0x0A]
                [''-- Schema: public'', [], ''t:'', ''  a: integer'', ''  b: integer'',
                 ''  FK (a) > u(code)'', ''  FK (b) > u(code)'', []])"
    by code_simp
  from m x g show ?thesis by (intro conjI)
qed

section \<open>Properties of the compact-notation parser\<close>












end
